theory Spec2Isabelle
  imports Complex_Main
begin

section \<open>Values, errors and arguments\<close>

text \<open>
  The determinant-ratio engine of \<^verbatim>\<open>pyci/fanci/detratio.py\<close>. Every \<^verbatim>\<open>raise\<close> of
  the source, and every exception numpy raises on the paths the source takes, is a value
  of \<open>error\<close>; a function that can raise returns \<open>error + 'a\<close> with \<open>Inl\<close> for the
  exception.
\<close>

datatype error =
    TypeError_ham
  | ValueError_odd_nmatrices
  | TypeError_wfn
  | ValueError_wfn_nocc
  | ValueError_occs_array
  | ValueError_reshape
  | IndexError
  | LinAlgError

text \<open>
  A \<^verbatim>\<open>c_double\<close> entry of an output array. Arithmetic on parameters and determinants
  is exact over the reals; the one operation of the source that leaves the finite numbers
  is a division by zero, which numpy answers with an infinity or a NaN and no exception:
  that outcome is \<open>None\<close>.
\<close>

type_synonym c_double = "real option"

definition fdiv :: "real \<Rightarrow> real \<Rightarrow> c_double" where
  "fdiv a b = (if b = 0 then None else Some (a / b))"

text \<open>
  The \<^verbatim>\<open>ham\<close> argument is a \<^verbatim>\<open>pyci.hamiltonian\<close> (known here by its \<^verbatim>\<open>nbasis\<close>) or
  any other object; the \<^verbatim>\<open>wfn\<close> argument is \<^verbatim>\<open>None\<close>, a \<^verbatim>\<open>pyci.doci_wfn\<close> or any
  other object; the \<^verbatim>\<open>occs_array\<close> argument is an integer array of configurations (one
  row each), a string or any other object.
\<close>

datatype ham_arg = Hamiltonian nat | NotHamiltonian

record doci_wfn =
  nbasis :: nat
  nocc_up :: nat
  nocc_dn :: nat

datatype wfn_arg = NoWfn | DociWfn doci_wfn | NotDociWfn

datatype occs_arg = Array "int list list" | Str string | OtherObject

section \<open>numpy operations the source calls\<close>

text \<open>
  \<^verbatim>\<open>np.linalg.det\<close> of a square array is the determinant, here by expansion along the
  first row; the determinant of the empty matrix is 1.
\<close>

fun det :: "real list list \<Rightarrow> real" where
  "det [] = 1"
| "det (row # rows) =
     (\<Sum>j\<leftarrow>[0..<length row]. (- 1) ^ j * row ! j * det (map (\<lambda>r. take j r @ drop (Suc j) r) rows))"

text \<open>
  An array of shape \<open>(length rows, ncols)\<close> is passed as its rows with the column count
  beside it; \<^verbatim>\<open>np.linalg.det\<close> raises \<^verbatim>\<open>LinAlgError\<close> unless the array is square.
\<close>

definition linalg_det :: "nat \<Rightarrow> real list list \<Rightarrow> error + real" where
  "linalg_det ncols rows = (if length rows = ncols then Inr (det rows) else Inl LinAlgError)"

text \<open>
  An index into an axis of length \<open>n\<close>: numpy counts a negative index from the end and
  raises \<^verbatim>\<open>IndexError\<close> outside \<open>[-n, n)\<close>.
\<close>

definition np_index :: "nat \<Rightarrow> int \<Rightarrow> error + nat" where
  "np_index n i =
     (if 0 \<le> i \<and> i < int n then Inr (nat i)
      else if - int n \<le> i \<and> i < 0 then Inr (nat (i + int n))
      else Inl IndexError)"

text \<open>\<^verbatim>\<open>mat[occs]\<close>: the rows of \<open>mat\<close> at an integer index array.\<close>

fun take_rows :: "'a list \<Rightarrow> int list \<Rightarrow> error + 'a list" where
  "take_rows mat [] = Inr []"
| "take_rows mat (i # inds) =
     (case np_index (length mat) i of
        Inl e \<Rightarrow> Inl e
      | Inr j \<Rightarrow>
          (case take_rows mat inds of
             Inl e \<Rightarrow> Inl e
           | Inr rs \<Rightarrow> Inr (mat ! j # rs)))"

text \<open>
  \<^verbatim>\<open>np.searchsorted(a, v)\<close> for an ascending array \<open>a\<close>: the leftmost position at which
  \<open>v\<close> can be inserted keeping the order, which is the number of elements below \<open>v\<close>.
\<close>

definition searchsorted :: "int list \<Rightarrow> int \<Rightarrow> nat" where
  "searchsorted a v = length (filter (\<lambda>e. e < v) a)"

text \<open>
  \<^verbatim>\<open>x.reshape(a, b, c)\<close> of a flat array, in C order: \<^verbatim>\<open>ValueError\<close> unless the sizes
  agree.
\<close>

definition reshape :: "nat \<Rightarrow> nat \<Rightarrow> nat \<Rightarrow> real list \<Rightarrow> error + real list list list" where
  "reshape a b c x =
     (if length x = a * b * c
      then Inr (map (\<lambda>m. map (\<lambda>r. map (\<lambda>k. x ! ((m * b + r) * c + k)) [0..<c]) [0..<b]) [0..<a])
      else Inl ValueError_reshape)"

text \<open>\<^verbatim>\<open>y_row[i] = v\<close> with \<open>i\<close> non-negative.\<close>

definition set_item :: "'a list \<Rightarrow> nat \<Rightarrow> 'a \<Rightarrow> error + 'a list" where
  "set_item ys i v = (if i < length ys then Inr (ys[i := v]) else Inl IndexError)"

section \<open>The engine\<close>

record DetRatio =
  self_wfn :: doci_wfn
  self_nparam :: nat
  self_nproj :: nat
  self_sspace :: "int list list"
  self_pspace :: "int list list"
  self_nmatrices :: nat
  self_numerator :: nat
  self_denominator :: nat
  self_sspace_data :: "nat list list"
  self_pspace_data :: "nat list list"

text \<open>
  Modelled from the spec: the base class \<^verbatim>\<open>FanCI\<close> (\<^verbatim>\<open>fanci.py\<close>) is not among the
  sources. Its initialiser keeps the wave function, \<^verbatim>\<open>nproj\<close> and \<^verbatim>\<open>nparam\<close>, and holds
  the configurations of the full space (\<open>space\<close>, as the configuration space provider
  enumerates them) with the projection space as its prefix of length \<^verbatim>\<open>nproj\<close>. The
  fields of the subclass are filled in by \<open>DetRatio_init\<close>.
\<close>

definition FanCI_init :: "doci_wfn \<Rightarrow> nat \<Rightarrow> nat \<Rightarrow> int list list \<Rightarrow> DetRatio" where
  "FanCI_init wfn nproj nparam space =
     \<lparr>self_wfn = wfn, self_nparam = nparam, self_nproj = nproj,
      self_sspace = space, self_pspace = take nproj space,
      self_nmatrices = 0, self_numerator = 0, self_denominator = 0,
      self_sspace_data = [], self_pspace_data = []\<rparr>"

text \<open>\<^verbatim>\<open>DetRatio.__init__\<close>, lines 48 to 114.\<close>

definition DetRatio_init ::
  "ham_arg \<Rightarrow> nat \<Rightarrow> nat \<Rightarrow> nat \<Rightarrow> nat option \<Rightarrow> wfn_arg \<Rightarrow> int list list \<Rightarrow> error + DetRatio" where
  "DetRatio_init ham nocc numerator denominator nproj_arg wfn_a space =
     (case ham of
        NotHamiltonian \<Rightarrow> Inl TypeError_ham
      | Hamiltonian ham_nbasis \<Rightarrow>
          (let nmatrices = numerator + denominator in
           if nmatrices mod 2 \<noteq> 0 then Inl ValueError_odd_nmatrices
           else
             (let nparam = nmatrices * ham_nbasis * nocc + 1;
                  nproj = (case nproj_arg of None \<Rightarrow> nparam | Some p \<Rightarrow> p);
                  checked =
                    (case wfn_a of
                       NoWfn \<Rightarrow> Inr \<lparr>nbasis = ham_nbasis, nocc_up = nocc, nocc_dn = nocc\<rparr>
                     | NotDociWfn \<Rightarrow> Inl TypeError_wfn
                     | DociWfn w \<Rightarrow>
                         (if nocc_up w \<noteq> nocc then Inl ValueError_wfn_nocc
                          else if nocc_dn w \<noteq> nocc then Inl ValueError_wfn_nocc
                          else Inr w))
              in case checked of
                   Inl e \<Rightarrow> Inl e
                 | Inr wfn \<Rightarrow>
                     (let self = FanCI_init wfn nproj nparam space;
                          arange = map int [0..<nbasis (self_wfn self)];
                          sspace_data = map (\<lambda>occs. map (searchsorted occs) arange) (self_sspace self);
                          pspace_data = take (self_nproj self) sspace_data
                      in Inr (self\<lparr>self_nmatrices := nmatrices,
                                    self_numerator := numerator,
                                    self_denominator := denominator,
                                    self_sspace_data := sspace_data,
                                    self_pspace_data := pspace_data\<rparr>)))))"

section \<open>compute_overlap\<close>

text \<open>Lines 135 to 142 and 178 to 185: the batch an \<^verbatim>\<open>occs_array\<close> argument stands for.\<close>

definition select_occs :: "DetRatio \<Rightarrow> occs_arg \<Rightarrow> error + int list list" where
  "select_occs self occs_array =
     (case occs_array of
        Array arr \<Rightarrow> Inr arr
      | Str s \<Rightarrow>
          (if s = ''P'' then Inr (self_pspace self)
           else if s = ''S'' then Inr (self_sspace self)
           else Inl ValueError_occs_array)
      | OtherObject \<Rightarrow> Inl ValueError_occs_array)"

text \<open>\<^verbatim>\<open>[np.linalg.det(mat[occs]) for mat in mats]\<close>, each matrix with \<open>ncols\<close> columns.\<close>

fun dets_of :: "nat \<Rightarrow> real list list list \<Rightarrow> int list \<Rightarrow> error + real list" where
  "dets_of ncols [] occs = Inr []"
| "dets_of ncols (mat # mats) occs =
     (case take_rows mat occs of
        Inl e \<Rightarrow> Inl e
      | Inr sub \<Rightarrow>
          (case linalg_det ncols sub of
             Inl e \<Rightarrow> Inl e
           | Inr d \<Rightarrow>
               (case dets_of ncols mats occs of
                  Inl e \<Rightarrow> Inl e
                | Inr ds \<Rightarrow> Inr (d # ds))))"

text \<open>
  Lines 151 to 154: the loop over \<^verbatim>\<open>enumerate(occs_array)\<close>, writing \<^verbatim>\<open>y[i]\<close>; \<open>i\<close> is
  the running index and \<open>y\<close> the output array so far.
\<close>

fun overlap_loop ::
  "nat \<Rightarrow> real list list list \<Rightarrow> real list list list \<Rightarrow> nat \<Rightarrow> int list list \<Rightarrow> c_double list
   \<Rightarrow> error + c_double list" where
  "overlap_loop ncols n_mats d_mats i [] y = Inr y"
| "overlap_loop ncols n_mats d_mats i (occs # rest) y =
     (case dets_of ncols n_mats occs of
        Inl e \<Rightarrow> Inl e
      | Inr n_dets \<Rightarrow>
          (case dets_of ncols d_mats occs of
             Inl e \<Rightarrow> Inl e
           | Inr d_dets \<Rightarrow>
               overlap_loop ncols n_mats d_mats (Suc i) rest
                 (y[i := fdiv (prod_list n_dets) (prod_list d_dets)])))"

text \<open>
  \<^verbatim>\<open>compute_overlap\<close>, lines 116 to 155. \<^verbatim>\<open>np.empty\<close> leaves the entries of \<open>y\<close>
  unspecified until the loop writes them; the model starts them at zero.
\<close>

definition compute_overlap :: "DetRatio \<Rightarrow> real list \<Rightarrow> occs_arg \<Rightarrow> error + c_double list" where
  "compute_overlap self x occs_array =
     (case select_occs self occs_array of
        Inl e \<Rightarrow> Inl e
      | Inr occs_arr \<Rightarrow>
          (case reshape (self_nmatrices self) (nbasis (self_wfn self)) (nocc_up (self_wfn self)) x of
             Inl e \<Rightarrow> Inl e
           | Inr x_mats \<Rightarrow>
               (let n_mats = take (self_numerator self) x_mats;
                    d_mats = drop (self_numerator self) x_mats;
                    y = replicate (length occs_arr) (Some 0)
                in overlap_loop (nocc_up (self_wfn self)) n_mats d_mats 0 occs_arr y)))"

section \<open>compute_overlap_deriv\<close>

text \<open>
  The body of the two loops over the parameters (lines 210 to 223 and 230 to 243), which
  differ in the column sign only: \<open>odd_sign\<close> is the factor for an odd column position
  and \<open>even_sign\<close> the factor for an even one.
\<close>

definition take_cols :: "int list \<Rightarrow> real list list \<Rightarrow> real list list" where
  "take_cols cols rows = map (\<lambda>row. map (\<lambda>k. row ! nat k) cols) rows"

definition deriv_body ::
  "real \<Rightarrow> real \<Rightarrow> nat \<Rightarrow> real list list list \<Rightarrow> nat \<Rightarrow> int list \<Rightarrow> real list \<Rightarrow> real \<Rightarrow> real
   \<Rightarrow> nat \<Rightarrow> c_double list \<Rightarrow> error + c_double list" where
  "deriv_body odd_sign even_sign nocc x_mats mat_size occs dets n_det_prod d_det_prod i y_row =
     (let col_inds = map int [0..<nocc];
          m = i div mat_size;
          n = i mod mat_size;
          r = n div nocc;
          c = n mod nocc;
          rows = filter (\<lambda>oc. oc \<noteq> int r) occs;
          cols = filter (\<lambda>k. k \<noteq> int c) col_inds
      in if length rows = length cols \<and> length cols = 0 then set_item y_row i (Some 1)
         else if length rows \<noteq> length occs \<and> length cols \<noteq> length col_inds then
           (let val1 = (if searchsorted occs (int r) mod 2 \<noteq> 0 then - 1 else 1);
                val2 = val1 * (if searchsorted col_inds (int c) mod 2 \<noteq> 0 then odd_sign else even_sign)
            in if length x_mats \<le> m then Inl IndexError
               else
                 (case take_rows (x_mats ! m) rows of
                    Inl e \<Rightarrow> Inl e
                  | Inr sub_rows \<Rightarrow>
                      (case linalg_det (length cols) (take_cols cols sub_rows) of
                         Inl e \<Rightarrow> Inl e
                       | Inr minor \<Rightarrow>
                           (if length dets \<le> m then Inl IndexError
                            else set_item y_row i
                                   (fdiv (val2 * (n_det_prod * minor)) (d_det_prod * dets ! m))))))
         else Inr y_row)"

text \<open>A \<^verbatim>\<open>for i in range(...)\<close> loop over a state, stopped by the first exception.\<close>

fun for_range :: "(nat \<Rightarrow> 's \<Rightarrow> error + 's) \<Rightarrow> nat list \<Rightarrow> 's \<Rightarrow> error + 's" where
  "for_range body [] s = Inr s"
| "for_range body (i # rest) s =
     (case body i s of
        Inl e \<Rightarrow> Inl e
      | Inr s' \<Rightarrow> for_range body rest s')"

text \<open>
  Lines 198 to 243, the work on one configuration and its zero-initialised row of \<open>y\<close>.
  The first loop has the column signs of line 220 (\<open>- 1\<close> at an odd position, \<open>+ 1\<close> at
  an even one), the second those of line 240 (\<open>+ 1\<close> and \<open>- 1\<close>). After the first loop
  the variable \<open>i\<close> holds the last index of its range, or the \<open>0\<close> of line 204 when the
  range is empty; the second loop runs over \<^verbatim>\<open>range(j, j + self._numerator * mat_size)\<close>
  with \<open>j = i + 1\<close>.
\<close>

definition deriv_row :: "DetRatio \<Rightarrow> real list list list \<Rightarrow> nat \<Rightarrow> int list \<Rightarrow> error + c_double list" where
  "deriv_row self x_mats mat_size occs =
     (let nocc = nocc_up (self_wfn self);
          y_row = replicate (self_nparam self - 1) (Some 0)
      in case dets_of nocc x_mats occs of
           Inl e \<Rightarrow> Inl e
         | Inr dets \<Rightarrow>
             (let n_det_prod = prod_list (take (self_numerator self) dets);
                  d_det_prod = prod_list (drop (self_numerator self) dets);
                  stop = self_numerator self * mat_size
              in case for_range
                        (deriv_body (- 1) 1 nocc x_mats mat_size occs dets n_det_prod d_det_prod)
                        [0..<stop] y_row of
                   Inl e \<Rightarrow> Inl e
                 | Inr y_row1 \<Rightarrow>
                     (let i = (if stop = 0 then 0 else stop - 1);
                          j = i + 1
                      in for_range
                           (deriv_body 1 (- 1) nocc x_mats mat_size occs dets n_det_prod d_det_prod)
                           [j..<j + self_numerator self * mat_size] y_row1)))"

text \<open>Line 196: the loop over \<^verbatim>\<open>zip(y, occs_array)\<close>, one row of \<open>y\<close> per configuration.\<close>

fun deriv_rows ::
  "DetRatio \<Rightarrow> real list list list \<Rightarrow> nat \<Rightarrow> int list list \<Rightarrow> error + c_double list list" where
  "deriv_rows self x_mats mat_size [] = Inr []"
| "deriv_rows self x_mats mat_size (occs # rest) =
     (case deriv_row self x_mats mat_size occs of
        Inl e \<Rightarrow> Inl e
      | Inr y_row \<Rightarrow>
          (case deriv_rows self x_mats mat_size rest of
             Inl e \<Rightarrow> Inl e
           | Inr y_rows \<Rightarrow> Inr (y_row # y_rows)))"

text \<open>\<^verbatim>\<open>compute_overlap_deriv\<close>, lines 157 to 246.\<close>

definition compute_overlap_deriv ::
  "DetRatio \<Rightarrow> real list \<Rightarrow> occs_arg \<Rightarrow> error + c_double list list" where
  "compute_overlap_deriv self x occs_array =
     (case select_occs self occs_array of
        Inl e \<Rightarrow> Inl e
      | Inr occs_arr \<Rightarrow>
          (case reshape (self_nmatrices self) (nbasis (self_wfn self)) (nocc_up (self_wfn self)) x of
             Inl e \<Rightarrow> Inl e
           | Inr x_mats \<Rightarrow>
               (let mat_size = nbasis (self_wfn self) * nocc_up (self_wfn self)
                in deriv_rows self x_mats mat_size occs_arr)))"

section \<open>The quantities the specification names\<close>

text \<open>
  Matrix \<open>m\<close> of a flat parameter vector: \<open>nb\<close> rows and \<open>nocc\<close> columns, row-major,
  matrix after matrix.
\<close>

definition param_matrix :: "nat \<Rightarrow> nat \<Rightarrow> real list \<Rightarrow> nat \<Rightarrow> real list list" where
  "param_matrix nb nocc x m = map (\<lambda>r. map (\<lambda>k. x ! ((m * nb + r) * nocc + k)) [0..<nocc]) [0..<nb]"

text \<open>A matrix restricted to the rows at the occupied indices of a configuration.\<close>

definition restrict_rows :: "real list list \<Rightarrow> int list \<Rightarrow> real list list" where
  "restrict_rows mat occs = map (\<lambda>oc. mat ! nat oc) occs"

text \<open>
  The overlap of a configuration as the specification words it: the product of the
  determinants of the numerator matrices (the first \<^verbatim>\<open>numerator\<close> ones) restricted to the
  occupied rows, divided by the product of the determinants of the remaining, denominator
  matrices restricted to those rows.
\<close>

definition overlap_value :: "DetRatio \<Rightarrow> real list \<Rightarrow> int list \<Rightarrow> c_double" where
  "overlap_value self x occs =
     (let nb = nbasis (self_wfn self); nocc = nocc_up (self_wfn self)
      in fdiv (\<Prod>m\<leftarrow>[0..<self_numerator self]. det (restrict_rows (param_matrix nb nocc x m) occs))
              (\<Prod>m\<leftarrow>[self_numerator self..<self_nmatrices self].
                   det (restrict_rows (param_matrix nb nocc x m) occs)))"

text \<open>
  A configuration of the engine's wave function: \<^verbatim>\<open>nocc\<close> distinct occupied indices in
  ascending order, each in \<open>[0, nbasis)\<close>.
\<close>

definition valid_occs :: "DetRatio \<Rightarrow> int list \<Rightarrow> bool" where
  "valid_occs self occs =
     (length occs = nocc_up (self_wfn self) \<and> sorted_wrt (<) occs \<and>
      list_all (\<lambda>oc. 0 \<le> oc \<and> oc < int (nbasis (self_wfn self))) occs)"

text \<open>An engine over three basis functions with two occupied, one matrix on each side.\<close>

definition engine_3_2 :: DetRatio where
  "engine_3_2 =
     \<lparr>self_wfn = \<lparr>nbasis = 3, nocc_up = 2, nocc_dn = 2\<rparr>, self_nparam = 13, self_nproj = 2,
      self_sspace = [[0, 1], [0, 2], [1, 2]], self_pspace = [[0, 1], [0, 2]],
      self_nmatrices = 2, self_numerator = 1, self_denominator = 1,
      self_sspace_data = [[0, 1, 2], [0, 1, 1], [0, 0, 1]],
      self_pspace_data = [[0, 1, 2], [0, 1, 1]]\<rparr>"

text \<open>
  The minor of a matrix for a configuration: the determinant of the rows at the occupied
  indices other than \<open>r\<close>, restricted to the columns other than \<open>c\<close>.
\<close>

definition minor_det :: "real list list \<Rightarrow> nat \<Rightarrow> int list \<Rightarrow> nat \<Rightarrow> nat \<Rightarrow> real" where
  "minor_det mat nocc occs r c =
     det (take_cols (filter (\<lambda>k. k \<noteq> int c) (map int [0..<nocc]))
            (restrict_rows mat (filter (\<lambda>oc. oc \<noteq> int r) occs)))"

text \<open>
  The value one pass of a parameter loop stores at index \<open>i\<close> when it stores one, in
  closed form; \<open>deriv_body_closed_form\<close> below relates it to the loop body.
\<close>

definition written_value ::
  "real \<Rightarrow> real \<Rightarrow> nat \<Rightarrow> real list list list \<Rightarrow> nat \<Rightarrow> int list \<Rightarrow> real list \<Rightarrow> real \<Rightarrow> real
   \<Rightarrow> nat \<Rightarrow> c_double" where
  "written_value odd_sign even_sign nocc x_mats mat_size occs dets n_det_prod d_det_prod i =
     (let m = i div mat_size;
          r = (i mod mat_size) div nocc;
          c = (i mod mat_size) mod nocc
      in if nocc = 1 then Some 1
         else fdiv ((if odd (searchsorted occs (int r)) then - 1 else 1) *
                    (if odd c then odd_sign else even_sign) *
                    (n_det_prod * minor_det (x_mats ! m) nocc occs r c))
                   (d_det_prod * dets ! m))"

text \<open>
  The entry \<open>k\<close> of the row the two parameter loops leave for a configuration, in closed
  form: an entry the first loop stores, an entry the second loop stores, or the zero the
  row starts with.
\<close>

definition deriv_row_value :: "DetRatio \<Rightarrow> real list list list \<Rightarrow> int list \<Rightarrow> nat \<Rightarrow> c_double" where
  "deriv_row_value self x_mats occs k =
     (let nocc = nocc_up (self_wfn self);
          mat_size = nbasis (self_wfn self) * nocc;
          dets = map (\<lambda>mat. det (restrict_rows mat occs)) x_mats;
          n_det_prod = prod_list (take (self_numerator self) dets);
          d_det_prod = prod_list (drop (self_numerator self) dets);
          stop = self_numerator self * mat_size
      in if int ((k mod mat_size) div nocc) \<in> set occs then
           (if k < stop then
              written_value (- 1) 1 nocc x_mats mat_size occs dets n_det_prod d_det_prod k
            else if k < 2 * stop then
              written_value 1 (- 1) nocc x_mats mat_size occs dets n_det_prod d_det_prod k
            else Some 0)
         else Some 0)"

text \<open>An engine with no numerator matrix and two denominator matrices.\<close>

definition engine_0_2 :: DetRatio where
  "engine_0_2 =
     \<lparr>self_wfn = \<lparr>nbasis = 2, nocc_up = 1, nocc_dn = 1\<rparr>, self_nparam = 5, self_nproj = 5,
      self_sspace = [[0], [1]], self_pspace = [[0], [1]],
      self_nmatrices = 2, self_numerator = 0, self_denominator = 2,
      self_sspace_data = [[0, 1], [0, 0]],
      self_pspace_data = [[0, 1], [0, 0]]\<rparr>"

text \<open>
  Engines whose numerator and denominator counts differ or whose matrices have a single
  column: over two basis functions with one occupied index, three matrices over one, one
  over three and one over one; over three basis functions with two occupied indices, one
  matrix over three.
\<close>

definition engine_num3_den1 :: DetRatio where
  "engine_num3_den1 =
     \<lparr>self_wfn = \<lparr>nbasis = 2, nocc_up = 1, nocc_dn = 1\<rparr>, self_nparam = 9, self_nproj = 2,
      self_sspace = [[0], [1]], self_pspace = [[0], [1]],
      self_nmatrices = 4, self_numerator = 3, self_denominator = 1,
      self_sspace_data = [[0, 1], [0, 0]],
      self_pspace_data = [[0, 1], [0, 0]]\<rparr>"

definition engine_num1_den3 :: DetRatio where
  "engine_num1_den3 =
     \<lparr>self_wfn = \<lparr>nbasis = 2, nocc_up = 1, nocc_dn = 1\<rparr>, self_nparam = 9, self_nproj = 2,
      self_sspace = [[0], [1]], self_pspace = [[0], [1]],
      self_nmatrices = 4, self_numerator = 1, self_denominator = 3,
      self_sspace_data = [[0, 1], [0, 0]],
      self_pspace_data = [[0, 1], [0, 0]]\<rparr>"

definition engine_num1_den1 :: DetRatio where
  "engine_num1_den1 =
     \<lparr>self_wfn = \<lparr>nbasis = 2, nocc_up = 1, nocc_dn = 1\<rparr>, self_nparam = 5, self_nproj = 2,
      self_sspace = [[0], [1]], self_pspace = [[0], [1]],
      self_nmatrices = 2, self_numerator = 1, self_denominator = 1,
      self_sspace_data = [[0, 1], [0, 0]],
      self_pspace_data = [[0, 1], [0, 0]]\<rparr>"

definition engine_num1_den3_pair :: DetRatio where
  "engine_num1_den3_pair =
     \<lparr>self_wfn = \<lparr>nbasis = 3, nocc_up = 2, nocc_dn = 2\<rparr>, self_nparam = 25, self_nproj = 2,
      self_sspace = [[0, 1], [0, 2], [1, 2]], self_pspace = [[0, 1], [0, 2]],
      self_nmatrices = 4, self_numerator = 1, self_denominator = 3,
      self_sspace_data = [[0, 1, 2], [0, 1, 1], [0, 0, 1]],
      self_pspace_data = [[0, 1, 2], [0, 1, 1]]\<rparr>"

text \<open>
  The overlap of one configuration as a real function of the parameter vector: the entry
  \<^verbatim>\<open>compute_overlap\<close> returns for it, and \<open>0\<close> where \<^verbatim>\<open>compute_overlap\<close> raises or the
  entry is not finite.
\<close>

definition overlap_at :: "DetRatio \<Rightarrow> real list \<Rightarrow> int list \<Rightarrow> real" where
  "overlap_at self x occs =
     (case compute_overlap self x (Array [occs]) of
        Inr [Some v] \<Rightarrow> v
      | _ \<Rightarrow> 0)"

text \<open>
  The entry the specification gives for the derivative with respect to the entry at row
  \<open>occs ! p\<close> and column \<open>c\<close> of matrix \<open>m\<close>: the minor, times the row parity \<open>(- 1) ^ p\<close> of
  the position of the row among the occupied indices, times the column parity, which is
  \<open>(- 1) ^ c\<close> for a numerator matrix and \<open>- (- 1) ^ c\<close> for a denominator matrix, scaled by
  the product of the numerator determinants over the product of the denominator
  determinants and the determinant of matrix \<open>m\<close>.
\<close>

definition signed_minor_entry :: "DetRatio \<Rightarrow> real list \<Rightarrow> int list \<Rightarrow> nat \<Rightarrow> nat \<Rightarrow> nat \<Rightarrow> c_double" where
  "signed_minor_entry self x occs m p c =
     (let nb = nbasis (self_wfn self);
          nocc = nocc_up (self_wfn self);
          d = (\<lambda>k. det (restrict_rows (param_matrix nb nocc x k) occs));
          row_parity = (- 1) ^ p;
          col_parity = (if m < self_numerator self then (- 1) ^ c else - ((- 1) ^ c))
      in fdiv (row_parity * col_parity *
                ((\<Prod>k\<leftarrow>[0..<self_numerator self]. d k) *
                 minor_det (param_matrix nb nocc x m) nocc occs (nat (occs ! p)) c))
              ((\<Prod>k\<leftarrow>[self_numerator self..<self_nmatrices self]. d k) * d m))"

text \<open>The column of the derivative matrix that holds entry \<open>(r, c)\<close> of matrix \<open>m\<close>.\<close>

definition entry_index :: "DetRatio \<Rightarrow> nat \<Rightarrow> nat \<Rightarrow> nat \<Rightarrow> nat" where
  "entry_index self m r c = (m * nbasis (self_wfn self) + r) * nocc_up (self_wfn self) + c"

section \<open>Facts about the numpy operations\<close>

lemma fdiv_nonzero: "b \<noteq> 0 \<Longrightarrow> fdiv a b = Some (a / b)"
  by (simp add: fdiv_def)

lemma take_rows_in_range:
  "list_all (\<lambda>i. 0 \<le> i \<and> i < int (length mat)) inds \<Longrightarrow>
   take_rows mat inds = Inr (map (\<lambda>i. mat ! nat i) inds)"
  by (induction inds) (simp_all add: np_index_def)

lemma reshape_ok:
  "length x = a * b * c \<Longrightarrow> reshape a b c x = Inr (map (param_matrix b c x) [0..<a])"
  by (simp add: reshape_def param_matrix_def)

lemma length_param_matrix: "length (param_matrix nb nocc x m) = nb"
  by (simp add: param_matrix_def)

lemma dets_of_in_range:
  "list_all (\<lambda>mat. length mat = nb) mats \<Longrightarrow> length occs = ncols \<Longrightarrow>
   list_all (\<lambda>oc. 0 \<le> oc \<and> oc < int nb) occs \<Longrightarrow>
   dets_of ncols mats occs = Inr (map (\<lambda>mat. det (restrict_rows mat occs)) mats)"
  by (induction mats) (simp_all add: take_rows_in_range linalg_det_def restrict_rows_def)

lemma overlap_loop_steps:
  "list_all (\<lambda>occs. dets_of ncols n_mats occs = Inr (nd occs) \<and> dets_of ncols d_mats occs = Inr (dd occs)) batch \<Longrightarrow>
   i + length batch \<le> length y \<Longrightarrow>
   overlap_loop ncols n_mats d_mats i batch y =
     Inr (take i y @ map (\<lambda>occs. fdiv (prod_list (nd occs)) (prod_list (dd occs))) batch @ drop (i + length batch) y)"
proof (induction batch arbitrary: i y)
  case Nil
  then show ?case by simp
next
  case (Cons occs batch)
  have "take (Suc i) (y[i := v]) = take i y @ [v]" for v
    using Cons.prems(2) by (simp add: take_Suc_conv_app_nth)
  with Cons show ?case by simp
qed


lemma compute_overlap_closed_form:
  assumes "self_numerator self \<le> self_nmatrices self"
    and "length x = self_nmatrices self * nbasis (self_wfn self) * nocc_up (self_wfn self)"
    and "select_occs self a = Inr batch"
    and "list_all (valid_occs self) batch"
  shows "compute_overlap self x a = Inr (map (overlap_value self x) batch)"
proof -
  let ?nb = "nbasis (self_wfn self)" and ?nocc = "nocc_up (self_wfn self)"
  let ?num = "self_numerator self" and ?nm = "self_nmatrices self"
  let ?pm = "param_matrix ?nb ?nocc x"
  let ?d = "\<lambda>occs mat. det (restrict_rows mat occs)"
  have n_mats: "take ?num (map ?pm [0..<?nm]) = map ?pm [0..<?num]"
    using assms(1) by (simp add: take_map)
  have d_mats: "drop ?num (map ?pm [0..<?nm]) = map ?pm [?num..<?nm]"
    by (simp add: drop_map)
  have dets: "dets_of ?nocc (map ?pm ms) occs = Inr (map (?d occs) (map ?pm ms))"
    if "valid_occs self occs" for ms occs
    using that
    by (intro dets_of_in_range [where nb = ?nb])
       (simp_all add: valid_occs_def list_all_iff length_param_matrix)
  have all: "list_all (\<lambda>occs. dets_of ?nocc (map ?pm [0..<?num]) occs = Inr (map (?d occs) (map ?pm [0..<?num])) \<and>
                dets_of ?nocc (map ?pm [?num..<?nm]) occs = Inr (map (?d occs) (map ?pm [?num..<?nm]))) batch"
    using assms(4) dets by (simp add: list_all_iff)
  have loop: "overlap_loop ?nocc (map ?pm [0..<?num]) (map ?pm [?num..<?nm]) 0 batch
                (replicate (length batch) (Some 0)) =
              Inr (map (\<lambda>occs. fdiv (prod_list (map (?d occs) (map ?pm [0..<?num])))
                                      (prod_list (map (?d occs) (map ?pm [?num..<?nm])))) batch)"
    using overlap_loop_steps [OF all, of 0 "replicate (length batch) (Some 0)"] by simp
  show ?thesis
    unfolding compute_overlap_def
    by (simp add: assms(2,3) reshape_ok n_mats d_mats loop overlap_value_def Let_def comp_def)
qed

lemma length_filter_neq_upt:
  "length (filter (\<lambda>k. k \<noteq> int c) (map int [0..<n])) = (if c < n then n - 1 else n)"
  by (induction n) auto

lemma searchsorted_arange: "c \<le> n \<Longrightarrow> searchsorted (map int [0..<n]) (int c) = c"
  unfolding searchsorted_def
proof (induction n)
  case 0
  then show ?case by simp
next
  case (Suc n)
  show ?case
  proof (cases "c = Suc n")
    case True
    then show ?thesis by (simp add: filter_id_conv [THEN iffD2])
  next
    case False
    with Suc show ?thesis by simp
  qed
qed

lemma length_filter_neq_distinct:
  "distinct xs \<Longrightarrow> length (filter (\<lambda>y. y \<noteq> x) xs) = (if x \<in> set xs then length xs - 1 else length xs)"
proof (induction xs)
  case Nil
  then show ?case by simp
next
  case (Cons a xs)
  then show ?case by (auto simp: filter_id_conv [THEN iffD2] dest: length_pos_if_in_set)
qed

lemma sorted_wrt_less_distinct: "sorted_wrt (<) (xs :: int list) \<Longrightarrow> distinct xs"
  by (induction xs) auto

lemma deriv_body_closed_form:
  assumes nocc: "0 < nocc"
    and len: "length occs = nocc"
    and srt: "sorted_wrt (<) occs"
    and rng: "list_all (\<lambda>oc. 0 \<le> oc \<and> oc < int nb) occs"
    and ms: "mat_size = nb * nocc"
    and i: "i < length x_mats * mat_size"
    and dets: "length dets = length x_mats"
    and mats: "list_all (\<lambda>mat. length mat = nb) x_mats"
    and y: "i < length y_row"
  shows "deriv_body odd_sign even_sign nocc x_mats mat_size occs dets n_det_prod d_det_prod i y_row =
     Inr (if int ((i mod mat_size) div nocc) \<in> set occs
          then y_row[i := written_value odd_sign even_sign nocc x_mats mat_size occs dets
                            n_det_prod d_det_prod i]
          else y_row)"
proof -
  define m where "m = i div mat_size"
  define r where "r = (i mod mat_size) div nocc"
  define c where "c = (i mod mat_size) mod nocc"
  define rows where "rows = filter (\<lambda>oc. oc \<noteq> int r) occs"
  define cols where "cols = filter (\<lambda>k. k \<noteq> int c) (map int [0..<nocc])"
  have c_lt: "c < nocc" using nocc by (simp add: c_def)
  have m_lt: "m < length x_mats"
    using i by (simp add: m_def less_mult_imp_div_less)
  have dist: "distinct occs" using srt by (rule sorted_wrt_less_distinct)
  have lcols: "length cols = nocc - 1"
    unfolding cols_def by (simp only: length_filter_neq_upt c_lt if_True)
  have lrows: "length rows = (if int r \<in> set occs then nocc - 1 else nocc)"
    using dist len by (simp add: rows_def length_filter_neq_distinct)
  have len_m: "length (x_mats ! m) = nb"
    using mats m_lt by (simp add: list_all_length)
  have rows_rng: "list_all (\<lambda>i. 0 \<le> i \<and> i < int (length (x_mats ! m))) rows"
    using rng by (simp add: rows_def len_m list_all_iff)
  have tr: "take_rows (x_mats ! m) rows = Inr (restrict_rows (x_mats ! m) rows)"
    using take_rows_in_range [OF rows_rng] by (simp add: restrict_rows_def)
  have ss: "searchsorted (map int [0..<nocc]) (int c) = c"
    using c_lt by (simp add: searchsorted_arange)
  have unfolded: "deriv_body odd_sign even_sign nocc x_mats mat_size occs dets n_det_prod d_det_prod i y_row =
     (if length rows = length cols \<and> length cols = 0 then set_item y_row i (Some 1)
      else if length rows \<noteq> length occs \<and> length cols \<noteq> length (map int [0..<nocc]) then
        (if length x_mats \<le> m then Inl IndexError
         else
           (case take_rows (x_mats ! m) rows of
              Inl e \<Rightarrow> Inl e
            | Inr sub_rows \<Rightarrow>
                (case linalg_det (length cols) (take_cols cols sub_rows) of
                   Inl e \<Rightarrow> Inl e
                 | Inr minor \<Rightarrow>
                     (if length dets \<le> m then Inl IndexError
                      else set_item y_row i
                             (fdiv ((if searchsorted occs (int r) mod 2 \<noteq> 0 then - 1 else 1) *
                                    (if searchsorted (map int [0..<nocc]) (int c) mod 2 \<noteq> 0
                                     then odd_sign else even_sign) *
                                    (n_det_prod * minor))
                                   (d_det_prod * dets ! m))))))
      else Inr y_row)"
    unfolding deriv_body_def Let_def m_def r_def c_def rows_def cols_def ..
  have wv: "written_value odd_sign even_sign nocc x_mats mat_size occs dets n_det_prod d_det_prod i =
      (if nocc = 1 then Some 1
       else fdiv ((if odd (searchsorted occs (int r)) then - 1 else 1) *
                  (if odd c then odd_sign else even_sign) *
                  (n_det_prod * minor_det (x_mats ! m) nocc occs r c))
                 (d_det_prod * dets ! m))"
    unfolding written_value_def Let_def m_def r_def c_def ..
  have "deriv_body odd_sign even_sign nocc x_mats mat_size occs dets n_det_prod d_det_prod i y_row =
     Inr (if int r \<in> set occs
          then y_row[i := written_value odd_sign even_sign nocc x_mats mat_size occs dets
                            n_det_prod d_det_prod i]
          else y_row)"
  proof (cases "int r \<in> set occs")
    case False
    have A: "(length rows = length cols \<and> length cols = 0) = False"
      using lrows lcols False nocc by auto
    have B: "(length rows \<noteq> length occs \<and> length cols \<noteq> length (map int [0..<nocc])) = False"
      using lrows len False by simp
    show ?thesis
      unfolding unfolded A B using False by (simp only: if_False)
  next
    case True
    show ?thesis
    proof (cases "nocc = 1")
      case one: True
      have A: "(length rows = length cols \<and> length cols = 0) = True"
        using lrows lcols True one by simp
      show ?thesis
        unfolding unfolded A wv using True y one by (simp add: set_item_def)
    next
      case many: False
      have A: "(length rows = length cols \<and> length cols = 0) = False"
        using lcols nocc many by simp
      have B: "(length rows \<noteq> length occs \<and> length cols \<noteq> length (map int [0..<nocc])) = True"
        using lrows lcols True nocc len by simp
      have C: "(length x_mats \<le> m) = False" "(length dets \<le> m) = False"
        using m_lt dets by simp_all
      have ld: "linalg_det (length cols) (take_cols cols (restrict_rows (x_mats ! m) rows)) =
          Inr (minor_det (x_mats ! m) nocc occs r c)"
        using lrows lcols True
        by (simp add: linalg_det_def take_cols_def restrict_rows_def minor_det_def rows_def cols_def)
      have par: "(searchsorted occs (int r) mod 2 \<noteq> 0) = odd (searchsorted occs (int r))"
        "(c mod 2 \<noteq> 0) = odd c"
        by presburger+
      show ?thesis
        unfolding unfolded A B C tr ld ss par wv
        using True y many by (simp add: set_item_def ld)
    qed
  qed
  then show ?thesis unfolding r_def .
qed

lemma for_range_updates:
  assumes "\<And>i y. i \<in> set inds \<Longrightarrow> length y = L \<Longrightarrow> body i y = Inr (if P i then y[i := w i] else y)"
    and "length y = L"
  shows "for_range body inds y = Inr (fold (\<lambda>i y. if P i then y[i := w i] else y) inds y)"
  using assms
proof (induction inds arbitrary: y)
  case Nil
  then show ?case by simp
next
  case (Cons a inds)
  have step: "body a y = Inr (if P a then y[a := w a] else y)"
    using Cons.prems by simp
  have "for_range body inds (if P a then y[a := w a] else y) =
      Inr (fold (\<lambda>i y. if P i then y[i := w i] else y) inds (if P a then y[a := w a] else y))"
    using Cons.prems by (intro Cons.IH) simp_all
  then show ?case by (simp add: step)
qed

lemma length_fold_updates:
  "length (fold (\<lambda>i y. if P i then y[i := w i] else y) inds y) = length y"
  by (induction inds arbitrary: y) simp_all

lemma nth_fold_updates:
  "distinct inds \<Longrightarrow> k < length y \<Longrightarrow>
   fold (\<lambda>i y. if P i then y[i := w i] else y) inds y ! k =
     (if k \<in> set inds \<and> P k then w k else y ! k)"
proof (induction inds arbitrary: y)
  case Nil
  then show ?case by simp
next
  case (Cons a inds)
  let ?y = "if P a then y[a := w a] else y"
  have "fold (\<lambda>i y. if P i then y[i := w i] else y) inds ?y ! k =
      (if k \<in> set inds \<and> P k then w k else ?y ! k)"
    using Cons.prems by (intro Cons.IH) simp_all
  moreover have "?y ! k = (if a = k \<and> P k then w k else y ! k)"
    using Cons.prems by (cases "a = k") simp_all
  ultimately show ?case using Cons.prems by auto
qed

lemma deriv_row_closed_form:
  assumes occs: "valid_occs self occs"
    and lmats: "length x_mats = self_nmatrices self"
    and mats: "list_all (\<lambda>mat. length mat = nbasis (self_wfn self)) x_mats"
    and ms: "mat_size = nbasis (self_wfn self) * nocc_up (self_wfn self)"
    and np: "self_nparam self - 1 = self_nmatrices self * mat_size"
    and le: "2 * self_numerator self \<le> self_nmatrices self"
  shows "deriv_row self x_mats mat_size occs =
     Inr (map (deriv_row_value self x_mats occs) [0..<self_nparam self - 1])"
proof -
  define nocc where "nocc = nocc_up (self_wfn self)"
  define nb where "nb = nbasis (self_wfn self)"
  define num where "num = self_numerator self"
  define dets where "dets = map (\<lambda>mat. det (restrict_rows mat occs)) x_mats"
  define ndp where "ndp = prod_list (take num dets)"
  define ddp where "ddp = prod_list (drop num dets)"
  define stop where "stop = num * mat_size"
  define y0 :: "c_double list" where "y0 = replicate (self_nparam self - 1) (Some 0)"
  define P where "P = (\<lambda>i. int ((i mod mat_size) div nocc) \<in> set occs)"
  define w1 where "w1 = written_value (- 1) 1 nocc x_mats mat_size occs dets ndp ddp"
  define w2 where "w2 = written_value 1 (- 1) nocc x_mats mat_size occs dets ndp ddp"
  define y1 where "y1 = fold (\<lambda>i y. if P i then y[i := w1 i] else y) [0..<stop] y0"
  define j where "j = (if stop = 0 then 0 else stop - 1) + 1"
  define y2 where "y2 = fold (\<lambda>i y. if P i then y[i := w2 i] else y) [j..<j + stop] y1"
  have len: "length occs = nocc" and srt: "sorted_wrt (<) occs"
    and rng: "list_all (\<lambda>oc. 0 \<le> oc \<and> oc < int nb) occs"
    using occs by (simp_all add: valid_occs_def nocc_def nb_def)
  have ms': "mat_size = nb * nocc" using ms by (simp add: nb_def nocc_def)
  have mats': "list_all (\<lambda>mat. length mat = nb) x_mats" using mats by (simp add: nb_def)
  have ly0: "length y0 = length x_mats * mat_size" using np lmats by (simp add: y0_def)
  have dets_ok: "dets_of nocc x_mats occs = Inr dets"
    unfolding dets_def by (rule dets_of_in_range [OF mats' len rng])
  have ldets: "length dets = length x_mats" by (simp add: dets_def)
  have stop2: "2 * stop \<le> length x_mats * mat_size"
    using le lmats unfolding stop_def num_def
    by (metis mult.assoc mult_le_mono1)
  have body: "deriv_body os es nocc x_mats mat_size occs dets ndp ddp i y =
      Inr (if P i then y[i := written_value os es nocc x_mats mat_size occs dets ndp ddp i] else y)"
    if "i < 2 * stop" and "length y = length y0" for os es i y
  proof -
    have i: "i < length x_mats * mat_size" using that(1) stop2 by simp
    then have "0 < mat_size" by (cases "mat_size = 0") simp_all
    then have "0 < nocc" using ms' by simp
    then show ?thesis
      unfolding P_def
      by (intro deriv_body_closed_form [OF _ len srt rng ms' i ldets mats']) (use i that(2) ly0 in simp_all)
  qed
  have loop1: "for_range (deriv_body (- 1) 1 nocc x_mats mat_size occs dets ndp ddp) [0..<stop] y0 = Inr y1"
    unfolding y1_def w1_def
    by (rule for_range_updates [where L = "length y0"]) (simp_all add: body)
  have ly1: "length y1 = length y0" by (simp add: y1_def length_fold_updates)
  have j_range: "[j..<j + stop] = (if stop = 0 then [] else [stop..<2 * stop])"
  proof (cases "stop = 0")
    case True
    then show ?thesis by simp
  next
    case False
    then have "j = stop" by (simp add: j_def)
    then have "[j..<j + stop] = [stop..<2 * stop]"
      by (simp only: mult_2)
    then show ?thesis using False by simp
  qed
  have loop2: "for_range (deriv_body 1 (- 1) nocc x_mats mat_size occs dets ndp ddp)
                 [j..<j + stop] y1 = Inr y2"
    unfolding y2_def w2_def
    by (rule for_range_updates [where L = "length y0"]) (auto simp add: body ly1 j_range split: if_splits)
  have row: "deriv_row self x_mats mat_size occs = Inr y2"
    unfolding deriv_row_def Let_def
    unfolding nocc_def [symmetric] num_def [symmetric]
    unfolding dets_ok sum.case
    unfolding ndp_def [symmetric] ddp_def [symmetric] stop_def [symmetric] y0_def [symmetric]
    unfolding loop1 sum.case j_def [symmetric]
    by (rule loop2)
  have ly2: "length y2 = self_nparam self - 1"
    by (simp add: y2_def length_fold_updates ly1 y0_def)
  have "y2 = map (deriv_row_value self x_mats occs) [0..<self_nparam self - 1]"
  proof (rule nth_equalityI)
    show "length y2 = length (map (deriv_row_value self x_mats occs) [0..<self_nparam self - 1])"
      by (simp add: ly2)
  next
    fix k assume "k < length y2"
    then have k: "k < self_nparam self - 1" by (simp add: ly2)
    have k1: "k < length y1" and k0: "k < length y0" using k by (simp_all add: ly1 y0_def)
    have a: "y2 ! k = (if k \<in> set [j..<j + stop] \<and> P k then w2 k else y1 ! k)"
      unfolding y2_def by (rule nth_fold_updates) (simp_all add: k1)
    have b: "y1 ! k = (if k \<in> set [0..<stop] \<and> P k then w1 k else y0 ! k)"
      unfolding y1_def by (rule nth_fold_updates) (simp_all add: k0)
    have c: "y0 ! k = Some 0" using k by (simp add: y0_def)
    have d: "deriv_row_value self x_mats occs k =
        (if P k then (if k < stop then w1 k else if k < 2 * stop then w2 k else Some 0) else Some 0)"
      unfolding deriv_row_value_def Let_def P_def w1_def w2_def ndp_def ddp_def dets_def stop_def
        num_def nocc_def ms ..
    show "y2 ! k = map (deriv_row_value self x_mats occs) [0..<self_nparam self - 1] ! k"
      using k by (auto simp add: a b c d j_range)
  qed
  with row show ?thesis by simp
qed

lemma deriv_rows_map:
  "list_all (\<lambda>occs. deriv_row self x_mats mat_size occs = Inr (f occs)) batch \<Longrightarrow>
   deriv_rows self x_mats mat_size batch = Inr (map f batch)"
  by (induction batch) simp_all

lemma compute_overlap_deriv_closed_form:
  assumes le: "2 * self_numerator self \<le> self_nmatrices self"
    and np: "self_nparam self - 1 =
             self_nmatrices self * (nbasis (self_wfn self) * nocc_up (self_wfn self))"
    and x: "length x = self_nparam self - 1"
    and sel: "select_occs self a = Inr batch"
    and batch: "list_all (valid_occs self) batch"
  shows "compute_overlap_deriv self x a =
     Inr (map (\<lambda>occs. map (deriv_row_value self
                 (map (param_matrix (nbasis (self_wfn self)) (nocc_up (self_wfn self)) x)
                      [0..<self_nmatrices self]) occs)
               [0..<self_nparam self - 1]) batch)"
proof -
  let ?nb = "nbasis (self_wfn self)" and ?nocc = "nocc_up (self_wfn self)"
  let ?x_mats = "map (param_matrix ?nb ?nocc x) [0..<self_nmatrices self]"
  have rs: "reshape (self_nmatrices self) ?nb ?nocc x = Inr ?x_mats"
    using x np by (intro reshape_ok) (simp add: mult.assoc)
  have "deriv_row self ?x_mats (?nb * ?nocc) occs =
      Inr (map (deriv_row_value self ?x_mats occs) [0..<self_nparam self - 1])"
    if "valid_occs self occs" for occs
    using that le np
    by (intro deriv_row_closed_form) (simp_all add: list_all_iff length_param_matrix)
  then have "list_all (\<lambda>occs. deriv_row self ?x_mats (?nb * ?nocc) occs =
      Inr (map (deriv_row_value self ?x_mats occs) [0..<self_nparam self - 1])) batch"
    using batch by (simp add: list_all_iff)
  then have "deriv_rows self ?x_mats (?nb * ?nocc) batch =
      Inr (map (\<lambda>occs. map (deriv_row_value self ?x_mats occs) [0..<self_nparam self - 1]) batch)"
    by (rule deriv_rows_map)
  then show ?thesis
    unfolding compute_overlap_deriv_def sel sum.case rs Let_def .
qed

lemma deriv_row_value_no_numerator:
  "self_numerator self = 0 \<Longrightarrow> deriv_row_value self x_mats occs = (\<lambda>k. Some 0)"
  by (rule ext) (simp add: deriv_row_value_def Let_def)

lemma reshape_wrong_length:
  "length x \<noteq> a * b * c \<Longrightarrow> reshape a b c x = Inl ValueError_reshape"
  by (simp add: reshape_def)

lemma compute_overlap_reshape_fails:
  assumes "select_occs self a = Inr batch"
    and "length x \<noteq> self_nmatrices self * nbasis (self_wfn self) * nocc_up (self_wfn self)"
  shows "compute_overlap self x a = Inl ValueError_reshape"
    and "compute_overlap_deriv self x a = Inl ValueError_reshape"
  using assms by (simp_all add: compute_overlap_def compute_overlap_deriv_def reshape_wrong_length)

lemma searchsorted_nth:
  "sorted_wrt (<) occs \<Longrightarrow> p < length occs \<Longrightarrow> searchsorted occs (occs ! p) = p"
  unfolding searchsorted_def
proof (induction occs arbitrary: p)
  case Nil
  then show ?case by simp
next
  case (Cons a occs)
  show ?case
  proof (cases p)
    case 0
    have "filter (\<lambda>e. e < a) occs = []"
      using Cons.prems(1) by (auto simp add: filter_empty_conv)
    with 0 show ?thesis by simp
  next
    case (Suc q)
    have "a < occs ! q" using Cons.prems Suc by simp
    moreover have "length (filter (\<lambda>e. e < occs ! q) occs) = q"
      using Cons.prems Suc by (intro Cons.IH) simp_all
    ultimately show ?thesis using Suc by simp
  qed
qed

lemma div_mult_add_less: "j < k \<Longrightarrow> (m * k + j) div k = (m::nat)"
  by simp

lemma mod_mult_add_less: "j < k \<Longrightarrow> (m * k + j) mod k = (j::nat)"
  by simp

lemma flat_index:
  fixes m nb nocc r c :: nat
  assumes "r < nb" and "c < nocc"
  shows "((m * nb + r) * nocc + c) div (nb * nocc) = m"
    and "(((m * nb + r) * nocc + c) mod (nb * nocc)) div nocc = r"
    and "(((m * nb + r) * nocc + c) mod (nb * nocc)) mod nocc = c"
proof -
  have "r * nocc + c < r * nocc + nocc" using assms(2) by simp
  also have "\<dots> = Suc r * nocc" by simp
  also have "\<dots> \<le> nb * nocc" using assms(1) by (intro mult_le_mono1) simp
  finally have lt: "r * nocc + c < nb * nocc" .
  have eq: "(m * nb + r) * nocc + c = m * (nb * nocc) + (r * nocc + c)"
    by (simp add: algebra_simps)
  show "((m * nb + r) * nocc + c) div (nb * nocc) = m"
    unfolding eq using lt by (rule div_mult_add_less)
  have md: "((m * nb + r) * nocc + c) mod (nb * nocc) = r * nocc + c"
    unfolding eq using lt by (rule mod_mult_add_less)
  show "(((m * nb + r) * nocc + c) mod (nb * nocc)) div nocc = r"
    unfolding md using assms(2) by (rule div_mult_add_less)
  show "(((m * nb + r) * nocc + c) mod (nb * nocc)) mod nocc = c"
    unfolding md using assms(2) by (rule mod_mult_add_less)
qed

lemma flat_index_less:
  fixes m nb nocc r c :: nat
  assumes "r < nb" and "c < nocc"
  shows "((m * nb + r) * nocc + c < n * (nb * nocc)) = (m < n)"
proof -
  have "0 < nb * nocc" using assms by (cases nb; cases nocc) simp_all
  then have "((m * nb + r) * nocc + c) div (nb * nocc) < n \<longleftrightarrow> (m * nb + r) * nocc + c < n * (nb * nocc)"
    by (simp add: div_less_iff_less_mult)
  then show ?thesis using flat_index(1) [OF assms, of m] by simp
qed

section \<open>Construction\<close>

lemma init_engine_3_2:
  "DetRatio_init (Hamiltonian 3) 2 1 1 (Some 2) NoWfn [[0, 1], [0, 2], [1, 2]] = Inr engine_3_2"
  by (simp add: DetRatio_init_def FanCI_init_def engine_3_2_def searchsorted_def Let_def upt_conv_Cons)

lemma init_engine_0_2:
  "DetRatio_init (Hamiltonian 2) 1 0 2 None NoWfn [[0], [1]] = Inr engine_0_2"
  by (simp add: DetRatio_init_def FanCI_init_def engine_0_2_def searchsorted_def Let_def upt_conv_Cons)

lemma init_engine_num3_den1:
  "DetRatio_init (Hamiltonian 2) 1 3 1 (Some 2) NoWfn [[0], [1]] = Inr engine_num3_den1"
  by (simp add: DetRatio_init_def FanCI_init_def engine_num3_den1_def searchsorted_def Let_def upt_conv_Cons)

lemma init_engine_num1_den3:
  "DetRatio_init (Hamiltonian 2) 1 1 3 (Some 2) NoWfn [[0], [1]] = Inr engine_num1_den3"
  by (simp add: DetRatio_init_def FanCI_init_def engine_num1_den3_def searchsorted_def Let_def upt_conv_Cons)

lemma init_engine_num1_den1:
  "DetRatio_init (Hamiltonian 2) 1 1 1 (Some 2) NoWfn [[0], [1]] = Inr engine_num1_den1"
  by (simp add: DetRatio_init_def FanCI_init_def engine_num1_den1_def searchsorted_def Let_def upt_conv_Cons)

lemma init_engine_num1_den3_pair:
  "DetRatio_init (Hamiltonian 3) 2 1 3 (Some 2) NoWfn [[0, 1], [0, 2], [1, 2]] = Inr engine_num1_den3_pair"
  by (simp add: DetRatio_init_def FanCI_init_def engine_num1_den3_pair_def searchsorted_def Let_def upt_conv_Cons)

lemma DetRatio_init_fields:
  assumes "DetRatio_init (Hamiltonian nb) nocc numerator denominator nproj_arg wfn_a space = Inr self"
  shows "self_nmatrices self = numerator + denominator"
    and "self_numerator self = numerator"
    and "self_denominator self = denominator"
    and "self_nparam self = (numerator + denominator) * nb * nocc + 1"
    and "nocc_up (self_wfn self) = nocc"
    and "self_sspace self = space"
    and "self_pspace self = take (self_nproj self) space"
    and "even (numerator + denominator)"
    and "wfn_a = NoWfn \<Longrightarrow> nbasis (self_wfn self) = nb"
  using assms
  by (auto simp add: DetRatio_init_def FanCI_init_def Let_def split: if_splits wfn_arg.splits)

lemma DetRatio_init_odd:
  "(numerator + denominator) mod 2 \<noteq> 0 \<Longrightarrow>
   DetRatio_init (Hamiltonian nb) nocc numerator denominator nproj_arg wfn_a space =
     Inl ValueError_odd_nmatrices"
  by (simp add: DetRatio_init_def Let_def del: even_add)

lemma DetRatio_init_even:
  "(numerator + denominator) mod 2 = 0 \<Longrightarrow>
   DetRatio_init ham nocc numerator denominator nproj_arg wfn_a space \<noteq> Inl ValueError_odd_nmatrices"
  by (cases ham; cases wfn_a)
     (simp_all add: DetRatio_init_def Let_def del: even_add)

lemma DetRatio_init_odd_fails:
  "(numerator + denominator) mod 2 \<noteq> 0 \<Longrightarrow>
   isl (DetRatio_init ham nocc numerator denominator nproj_arg wfn_a space)"
  by (cases ham) (simp_all add: DetRatio_init_def Let_def del: even_add)

text \<open>
  Claim C8. When \<^verbatim>\<open>numerator + denominator\<close> is odd, construction with a Hamiltonian
  raises the \<^verbatim>\<open>ValueError\<close> of line 85, and with any \<^verbatim>\<open>ham\<close> argument it produces no
  engine; when the sum is even, that error is not raised, whatever the other arguments.
\<close>

theorem odd_nmatrices_rejected:
  "(odd (numerator + denominator) \<longrightarrow>
      DetRatio_init (Hamiltonian nb) nocc numerator denominator nproj_arg wfn_a space =
        Inl ValueError_odd_nmatrices \<and>
      isl (DetRatio_init ham nocc numerator denominator nproj_arg wfn_a space)) \<and>
   (even (numerator + denominator) \<longrightarrow>
      DetRatio_init ham nocc numerator denominator nproj_arg wfn_a space \<noteq>
        Inl ValueError_odd_nmatrices)"
proof (cases "(numerator + denominator) mod 2 = 0")
  case True
  then have "even (numerator + denominator)" by presburger
  with DetRatio_init_even [OF True] show ?thesis by blast
next
  case False
  then have "odd (numerator + denominator)" by presburger
  with DetRatio_init_odd [OF False] DetRatio_init_odd_fails [OF False] show ?thesis by blast
qed

theorem odd_nmatrices_rejected_witness:
  "DetRatio_init (Hamiltonian 4) 2 2 1 None NoWfn [[0, 1]] = Inl ValueError_odd_nmatrices \<and>
   isl (DetRatio_init NotHamiltonian 2 2 1 None NoWfn [[0, 1]]) \<and>
   DetRatio_init (Hamiltonian 4) 2 1 1 None (DociWfn \<lparr>nbasis = 4, nocc_up = 3, nocc_dn = 3\<rparr>) [[0, 1]]
     \<noteq> Inl ValueError_odd_nmatrices"
  using odd_nmatrices_rejected [of 2 1 4 2 None NoWfn "[[0, 1]]" NotHamiltonian]
    odd_nmatrices_rejected [of 1 1 4 2 None "DociWfn \<lparr>nbasis = 4, nocc_up = 3, nocc_dn = 3\<rparr>" "[[0, 1]]" "Hamiltonian 4"]
  by simp

section \<open>The overlap\<close>

text \<open>
  Claim C2. For an engine built by \<open>DetRatio_init\<close> over the Hamiltonian's basis and a
  parameter vector of length \<^verbatim>\<open>nparam - 1\<close>, \<^verbatim>\<open>compute_overlap\<close> returns one value for
  each configuration of the batch, in the order of the batch: the product of the
  determinants of the numerator matrices restricted to the occupied rows divided by the
  product of the determinants of the denominator matrices restricted to those rows. The
  batch is the rows of an explicit array in the order given, the projection space for
  \<^verbatim>\<open>"P"\<close> and the full space for \<^verbatim>\<open>"S"\<close>.
\<close>

theorem compute_overlap_is_determinant_ratio:
  assumes "DetRatio_init (Hamiltonian nb) nocc numerator denominator nproj_arg wfn_a space = Inr self"
    and "nbasis (self_wfn self) = nb"
    and "length x = self_nparam self - 1"
  shows "(list_all (valid_occs self) batch \<longrightarrow>
            compute_overlap self x (Array batch) = Inr (map (overlap_value self x) batch)) \<and>
         (list_all (valid_occs self) (self_pspace self) \<longrightarrow>
            compute_overlap self x (Str ''P'') = Inr (map (overlap_value self x) (self_pspace self))) \<and>
         (list_all (valid_occs self) (self_sspace self) \<longrightarrow>
            compute_overlap self x (Str ''S'') = Inr (map (overlap_value self x) (self_sspace self)))"
proof -
  note f = DetRatio_init_fields [OF assms(1)]
  have "compute_overlap self x a = Inr (map (overlap_value self x) b)"
    if "select_occs self a = Inr b" and "list_all (valid_occs self) b" for a b
    by (rule compute_overlap_closed_form) (simp_all add: f assms that)
  then show ?thesis
    by (simp add: select_occs_def)
qed

theorem compute_overlap_is_determinant_ratio_witness:
  "DetRatio_init (Hamiltonian 3) 2 1 1 (Some 2) NoWfn [[0, 1], [0, 2], [1, 2]] = Inr engine_3_2 \<and>
   compute_overlap engine_3_2 [1, 2, 3, 4, 5, 6, 7, 8, 9, 0, 1, 3] (Array [[1, 2], [0, 1], [1, 2]]) =
     Inr [Some (- (2 / 27)), Some (1 / 36), Some (- (2 / 27))] \<and>
   compute_overlap engine_3_2 [1, 2, 3, 4, 5, 6, 7, 8, 9, 0, 1, 3] (Str ''P'') =
     Inr [Some (1 / 36), Some (- (4 / 13))] \<and>
   compute_overlap engine_3_2 [1, 2, 3, 4, 5, 6, 7, 8, 9, 0, 1, 3] (Str ''S'') =
     Inr [Some (1 / 36), Some (- (4 / 13)), Some (- (2 / 27))]"
proof -
  have ev: "map (overlap_value engine_3_2 [1, 2, 3, 4, 5, 6, 7, 8, 9, 0, 1, 3]) [[0, 1], [0, 2], [1, 2]]
        = [Some (1 / 36), Some (- (4 / 13)), Some (- (2 / 27))]"
    by (simp add: overlap_value_def engine_3_2_def param_matrix_def restrict_rows_def fdiv_def
        upt_conv_Cons)
  have sp: "self_sspace engine_3_2 = [[0, 1], [0, 2], [1, 2]]"
    "self_pspace engine_3_2 = [[0, 1], [0, 2]]"
    by (simp_all add: engine_3_2_def)
  have v: "list_all (valid_occs engine_3_2) [[0, 1], [0, 2], [1, 2]]"
    by (simp add: engine_3_2_def valid_occs_def)
  have "nbasis (self_wfn engine_3_2) = 3"
    and "length [1, 2, 3, 4, 5, 6, 7, 8, 9, 0, 1, 3 :: real] = self_nparam engine_3_2 - 1"
    by (simp_all add: engine_3_2_def)
  from compute_overlap_is_determinant_ratio [OF init_engine_3_2 this, of "[[1, 2], [0, 1], [1, 2]]"]
  show ?thesis using ev v init_engine_3_2 by (simp add: sp)
qed

section \<open>The selector\<close>

text \<open>
  Claim C7. An \<^verbatim>\<open>occs_array\<close> argument that is neither an array nor \<^verbatim>\<open>"P"\<close> nor \<^verbatim>\<open>"S"\<close>
  makes both \<^verbatim>\<open>compute_overlap\<close> and \<^verbatim>\<open>compute_overlap_deriv\<close> raise the \<^verbatim>\<open>ValueError\<close>
  of lines 142 and 185, for every engine and every parameter vector, also one that no
  later step would accept: the check comes before the reshape and the loops. Neither
  method assigns an attribute of \<^verbatim>\<open>self\<close>, so the engine is an argument that is only read.
\<close>

theorem invalid_selector_raises:
  assumes "\<forall>arr. occs_array \<noteq> Array arr" and "occs_array \<noteq> Str ''P''" and "occs_array \<noteq> Str ''S''"
  shows "compute_overlap self x occs_array = Inl ValueError_occs_array \<and>
         compute_overlap_deriv self x occs_array = Inl ValueError_occs_array"
  using assms
  by (cases occs_array) (simp_all add: compute_overlap_def compute_overlap_deriv_def select_occs_def)

theorem invalid_selector_raises_witness:
  "compute_overlap engine_3_2 [] (Str ''Q'') = Inl ValueError_occs_array \<and>
   compute_overlap_deriv engine_3_2 [] (Str ''Q'') = Inl ValueError_occs_array \<and>
   compute_overlap engine_3_2 [1, 2, 3, 4, 5, 6, 7, 8, 9, 0, 1, 3] OtherObject = Inl ValueError_occs_array \<and>
   compute_overlap_deriv engine_3_2 [1, 2, 3, 4, 5, 6, 7, 8, 9, 0, 1, 3] OtherObject = Inl ValueError_occs_array"
  using invalid_selector_raises [of "Str ''Q''" engine_3_2 "[]"]
    invalid_selector_raises [of OtherObject engine_3_2 "[1, 2, 3, 4, 5, 6, 7, 8, 9, 0, 1, 3]"]
  by simp

section \<open>The parameter vector\<close>

text \<open>
  Claim C9 as the specification states it fails: on the engine over three basis functions
  a vector of length \<^verbatim>\<open>nparam = 13\<close> makes \<^verbatim>\<open>compute_overlap\<close> raise, where its prefix of
  length 12 gives the overlap.
\<close>

theorem trailing_energy_rejected_counterexample:
  "DetRatio_init (Hamiltonian 3) 2 1 1 (Some 2) NoWfn [[0, 1], [0, 2], [1, 2]] = Inr engine_3_2 \<and>
   length [1, 2, 3, 4, 5, 6, 7, 8, 9, 0, 1, 3, 5 :: real] = self_nparam engine_3_2 \<and>
   compute_overlap engine_3_2 [1, 2, 3, 4, 5, 6, 7, 8, 9, 0, 1, 3, 5] (Str ''S'') = Inl ValueError_reshape \<and>
   compute_overlap engine_3_2 [1, 2, 3, 4, 5, 6, 7, 8, 9, 0, 1, 3, 5] (Array [[0, 1]]) = Inl ValueError_reshape \<and>
   compute_overlap engine_3_2 [1, 2, 3, 4, 5, 6, 7, 8, 9, 0, 1, 3] (Array [[0, 1]]) = Inr [Some (1 / 36)]"
proof -
  have "compute_overlap engine_3_2 [1, 2, 3, 4, 5, 6, 7, 8, 9, 0, 1, 3, 5] (Str ''S'') = Inl ValueError_reshape"
    by code_simp
  moreover have "compute_overlap engine_3_2 [1, 2, 3, 4, 5, 6, 7, 8, 9, 0, 1, 3, 5] (Array [[0, 1]]) = Inl ValueError_reshape"
    by code_simp
  moreover have "compute_overlap engine_3_2 [1, 2, 3, 4, 5, 6, 7, 8, 9, 0, 1, 3] (Array [[0, 1]]) = Inr [Some (1 / 36)]"
    by code_simp
  ultimately show ?thesis
    using init_engine_3_2 by (simp add: engine_3_2_def)
qed

text \<open>
  Claim C9, as amended. A parameter vector of length \<^verbatim>\<open>nparam\<close>, the trailing energy entry
  included, is not accepted: the \<^verbatim>\<open>reshape\<close> of lines 145 and 188 takes the whole of \<open>x\<close>, so
  \<^verbatim>\<open>compute_overlap\<close> and \<^verbatim>\<open>compute_overlap_deriv\<close> raise its \<^verbatim>\<open>ValueError\<close> for an
  explicit array, for \<^verbatim>\<open>"P"\<close> and for \<^verbatim>\<open>"S"\<close>. The prefix of length \<^verbatim>\<open>nparam - 1\<close> is accepted,
  and \<^verbatim>\<open>compute_overlap\<close> returns the determinant ratios for it.
\<close>

theorem trailing_energy_rejected:
  assumes "DetRatio_init (Hamiltonian nb) nocc numerator denominator nproj_arg wfn_a space = Inr self"
    and "nbasis (self_wfn self) = nb"
    and "length x = self_nparam self"
  shows "compute_overlap self x (Array batch) = Inl ValueError_reshape \<and>
         compute_overlap self x (Str ''P'') = Inl ValueError_reshape \<and>
         compute_overlap self x (Str ''S'') = Inl ValueError_reshape \<and>
         compute_overlap_deriv self x (Array batch) = Inl ValueError_reshape \<and>
         compute_overlap_deriv self x (Str ''P'') = Inl ValueError_reshape \<and>
         compute_overlap_deriv self x (Str ''S'') = Inl ValueError_reshape \<and>
         (list_all (valid_occs self) batch \<longrightarrow>
            compute_overlap self (butlast x) (Array batch) =
              Inr (map (overlap_value self (butlast x)) batch)) \<and>
         (list_all (valid_occs self) (self_pspace self) \<longrightarrow>
            compute_overlap self (butlast x) (Str ''P'') =
              Inr (map (overlap_value self (butlast x)) (self_pspace self))) \<and>
         (list_all (valid_occs self) (self_sspace self) \<longrightarrow>
            compute_overlap self (butlast x) (Str ''S'') =
              Inr (map (overlap_value self (butlast x)) (self_sspace self)))"
proof -
  note f = DetRatio_init_fields [OF assms(1)]
  have len: "length x \<noteq> self_nmatrices self * nbasis (self_wfn self) * nocc_up (self_wfn self)"
    using assms(2,3) by (simp add: f)
  have bad: "compute_overlap self x a = Inl ValueError_reshape"
    "compute_overlap_deriv self x a = Inl ValueError_reshape"
    if "select_occs self a = Inr b" for a b
    using compute_overlap_reshape_fails [OF that len] by simp_all
  have good: "compute_overlap self (butlast x) a = Inr (map (overlap_value self (butlast x)) b)"
    if "select_occs self a = Inr b" and "list_all (valid_occs self) b" for a b
    by (rule compute_overlap_closed_form) (simp_all add: f assms that)
  have sel: "select_occs self (Array batch) = Inr batch"
    "select_occs self (Str ''P'') = Inr (self_pspace self)"
    "select_occs self (Str ''S'') = Inr (self_sspace self)"
    by (simp_all add: select_occs_def)
  show ?thesis
    using bad [OF sel(1)] bad [OF sel(2)] bad [OF sel(3)]
      good [OF sel(1)] good [OF sel(2)] good [OF sel(3)]
    by simp
qed

theorem trailing_energy_rejected_witness:
  "DetRatio_init (Hamiltonian 3) 2 1 1 (Some 2) NoWfn [[0, 1], [0, 2], [1, 2]] = Inr engine_3_2 \<and>
   compute_overlap engine_3_2 [1, 2, 3, 4, 5, 6, 7, 8, 9, 0, 1, 3, 5] (Array [[1, 2], [0, 1]]) = Inl ValueError_reshape \<and>
   compute_overlap engine_3_2 [1, 2, 3, 4, 5, 6, 7, 8, 9, 0, 1, 3, 5] (Str ''P'') = Inl ValueError_reshape \<and>
   compute_overlap_deriv engine_3_2 [1, 2, 3, 4, 5, 6, 7, 8, 9, 0, 1, 3, 5] (Array [[1, 2], [0, 1]]) = Inl ValueError_reshape \<and>
   compute_overlap_deriv engine_3_2 [1, 2, 3, 4, 5, 6, 7, 8, 9, 0, 1, 3, 5] (Str ''S'') = Inl ValueError_reshape \<and>
   compute_overlap engine_3_2 [1, 2, 3, 4, 5, 6, 7, 8, 9, 0, 1, 3] (Array [[1, 2], [0, 1]]) =
     Inr [Some (- (2 / 27)), Some (1 / 36)] \<and>
   compute_overlap engine_3_2 [1, 2, 3, 4, 5, 6, 7, 8, 9, 0, 1, 3] (Str ''S'') =
     Inr [Some (1 / 36), Some (- (4 / 13)), Some (- (2 / 27))]"
proof -
  have ev: "map (overlap_value engine_3_2 [1, 2, 3, 4, 5, 6, 7, 8, 9, 0, 1, 3]) [[0, 1], [0, 2], [1, 2]]
        = [Some (1 / 36), Some (- (4 / 13)), Some (- (2 / 27))]"
    by (simp add: overlap_value_def engine_3_2_def param_matrix_def restrict_rows_def fdiv_def
        upt_conv_Cons)
  have sp: "self_sspace engine_3_2 = [[0, 1], [0, 2], [1, 2]]"
    "self_pspace engine_3_2 = [[0, 1], [0, 2]]"
    by (simp_all add: engine_3_2_def)
  have v: "list_all (valid_occs engine_3_2) [[0, 1], [0, 2], [1, 2]]"
    by (simp add: engine_3_2_def valid_occs_def)
  have "nbasis (self_wfn engine_3_2) = 3"
    and "length [1, 2, 3, 4, 5, 6, 7, 8, 9, 0, 1, 3, 5 :: real] = self_nparam engine_3_2"
    by (simp_all add: engine_3_2_def)
  from trailing_energy_rejected [OF init_engine_3_2 this, of "[[1, 2], [0, 1]]"]
  show ?thesis using ev v init_engine_3_2 by (simp add: sp)
qed

section \<open>The derivative\<close>

text \<open>
  Claim C10. For an engine built with \<^verbatim>\<open>numerator = 0\<close>, \<^verbatim>\<open>compute_overlap_deriv\<close>
  returns the matrix of zeros with one row for each configuration of the batch and
  \<^verbatim>\<open>nparam - 1\<close> columns: both parameter loops run over \<^verbatim>\<open>numerator * mat_size = 0\<close>
  indices, so no entry of a denominator matrix is written.
\<close>

theorem no_numerator_zero_derivative:
  assumes "DetRatio_init (Hamiltonian nb) nocc 0 denominator nproj_arg wfn_a space = Inr self"
    and "nbasis (self_wfn self) = nb"
    and "length x = self_nparam self - 1"
    and "select_occs self occs_array = Inr batch"
    and "list_all (valid_occs self) batch"
  shows "compute_overlap_deriv self x occs_array =
     Inr (replicate (length batch) (replicate (self_nparam self - 1) (Some 0)))"
proof -
  note f = DetRatio_init_fields [OF assms(1)]
  have "compute_overlap_deriv self x occs_array =
     Inr (map (\<lambda>occs. map (deriv_row_value self
                 (map (param_matrix (nbasis (self_wfn self)) (nocc_up (self_wfn self)) x)
                      [0..<self_nmatrices self]) occs)
               [0..<self_nparam self - 1]) batch)"
    using assms(2-5) by (intro compute_overlap_deriv_closed_form) (simp_all add: f)
  also have "\<dots> = Inr (replicate (length batch) (replicate (self_nparam self - 1) (Some 0)))"
    by (simp add: deriv_row_value_no_numerator f(2) map_replicate_const)
  finally show ?thesis .
qed

theorem no_numerator_zero_derivative_witness:
  "DetRatio_init (Hamiltonian 2) 1 0 2 None NoWfn [[0], [1]] = Inr engine_0_2 \<and>
   compute_overlap_deriv engine_0_2 [2, 3, 4, 5] (Str ''S'') =
     Inr [[Some 0, Some 0, Some 0, Some 0], [Some 0, Some 0, Some 0, Some 0]]"
proof -
  have S: "select_occs engine_0_2 (Str ''S'') = Inr [[0], [1]]"
    by (simp add: select_occs_def engine_0_2_def)
  have "compute_overlap_deriv engine_0_2 [2, 3, 4, 5] (Str ''S'') =
     Inr (replicate (length [[0::int], [1]]) (replicate (self_nparam engine_0_2 - 1) (Some 0)))"
    by (rule no_numerator_zero_derivative [OF init_engine_0_2 _ _ S])
       (simp_all add: engine_0_2_def valid_occs_def)
  then show ?thesis
    using init_engine_0_2 by (simp add: engine_0_2_def numeral_eq_Suc)
qed

text \<open>
  Where the two parameter loops run, the sign of an entry is the one the specification
  names: for an engine with no more numerator than denominator matrices, the entries of
  the first \<open>2 * numerator\<close> matrices at an occupied row are the signed minors, with the
  column parity of a numerator matrix for the first \<open>numerator\<close> of them and the opposite
  one for the others.
\<close>

lemma deriv_sign_convention:
  assumes init: "DetRatio_init (Hamiltonian nb) nocc numerator denominator nproj_arg wfn_a space = Inr self"
    and nb: "nbasis (self_wfn self) = nb"
    and le: "numerator \<le> denominator"
    and x: "length x = self_nparam self - 1"
    and batch: "list_all (valid_occs self) batch"
    and k: "k < length batch"
    and nocc: "1 < nocc"
    and p: "p < nocc"
    and c: "c < nocc"
    and m: "m < 2 * numerator"
  shows "\<exists>rows. compute_overlap_deriv self x (Array batch) = Inr rows \<and>
           rows ! k ! entry_index self m (nat (batch ! k ! p)) c =
             signed_minor_entry self x (batch ! k) m p c"
proof -
  note f = DetRatio_init_fields [OF init]
  define occs where "occs = batch ! k"
  define r where "r = nat (occs ! p)"
  define idx where "idx = (m * nb + r) * nocc + c"
  define pm where "pm = param_matrix nb nocc x"
  define X where "X = map pm [0..<numerator + denominator]"
  define d where "d = (\<lambda>j. det (restrict_rows (pm j) occs))"
  have valid: "valid_occs self occs"
    using batch k by (simp add: occs_def list_all_length)
  then have len: "length occs = nocc" and srt: "sorted_wrt (<) occs"
    and rng: "list_all (\<lambda>oc. 0 \<le> oc \<and> oc < int nb) occs"
    by (simp_all add: valid_occs_def f nb)
  have occ_p: "0 \<le> occs ! p" "occs ! p < int nb"
    using rng p len by (simp_all add: list_all_length)
  then have r_lt: "r < nb" and r_int: "int r = occs ! p" by (simp_all add: r_def)
  have r_in: "int r \<in> set occs" using p len by (simp add: r_int)
  have m_lt: "m < numerator + denominator" using m le by simp
  have idx_lt: "idx < self_nparam self - 1"
    using flat_index_less [OF r_lt c, of m "numerator + denominator"] m_lt
    by (simp add: f idx_def mult.assoc)
  have sel: "select_occs self (Array batch) = Inr batch" by (simp add: select_occs_def)
  have cf: "compute_overlap_deriv self x (Array batch) =
      Inr (map (\<lambda>occs. map (deriv_row_value self X occs) [0..<self_nparam self - 1]) batch)"
    using compute_overlap_deriv_closed_form [OF _ _ x sel batch] le
    by (simp add: f nb X_def pm_def mult.assoc)
  have entry: "map (\<lambda>occs. map (deriv_row_value self X occs) [0..<self_nparam self - 1]) batch ! k ! idx =
      deriv_row_value self X occs idx"
    using k idx_lt by (simp add: occs_def)
  have i_m: "idx div (nb * nocc) = m" and i_r: "(idx mod (nb * nocc)) div nocc = r"
    and i_c: "(idx mod (nb * nocc)) mod nocc = c"
    unfolding idx_def by (rule flat_index [OF r_lt c])+
  have lt1: "(idx < numerator * (nb * nocc)) = (m < numerator)"
    unfolding idx_def by (rule flat_index_less [OF r_lt c])
  have "(idx < (2 * numerator) * (nb * nocc)) = (m < 2 * numerator)"
    unfolding idx_def by (rule flat_index_less [OF r_lt c])
  then have lt2: "idx < 2 * (numerator * (nb * nocc))" using m by (simp add: mult.assoc)
  have ss: "searchsorted occs (int r) = p"
    unfolding r_int using srt p len by (intro searchsorted_nth) simp_all
  have Xm: "X ! m = pm m" using m_lt by (simp add: X_def)
  have dets: "map (\<lambda>mat. det (restrict_rows mat occs)) X = map d [0..<numerator + denominator]"
    by (simp add: X_def d_def comp_def)
  have tk: "take numerator (map d [0..<numerator + denominator]) = map d [0..<numerator]"
    by (simp add: take_map)
  have dr: "drop numerator (map d [0..<numerator + denominator]) = map d [numerator..<numerator + denominator]"
    by (simp add: drop_map)
  have dm: "map d [0..<numerator + denominator] ! m = d m" using m_lt by simp
  have wv: "written_value os es nocc X (nb * nocc) occs (map d [0..<numerator + denominator])
              (prod_list (map d [0..<numerator])) (prod_list (map d [numerator..<numerator + denominator])) idx =
      fdiv ((if odd p then - 1 else 1) * (if odd c then os else es) *
              (prod_list (map d [0..<numerator]) * minor_det (pm m) nocc occs r c))
           (prod_list (map d [numerator..<numerator + denominator]) * d m)" for os es
    unfolding written_value_def Let_def i_m i_r i_c ss Xm dm using nocc by simp
  have drv: "deriv_row_value self X occs idx =
      (if m < numerator
       then written_value (- 1) 1 nocc X (nb * nocc) occs (map d [0..<numerator + denominator])
              (prod_list (map d [0..<numerator])) (prod_list (map d [numerator..<numerator + denominator])) idx
       else written_value 1 (- 1) nocc X (nb * nocc) occs (map d [0..<numerator + denominator])
              (prod_list (map d [0..<numerator])) (prod_list (map d [numerator..<numerator + denominator])) idx)"
    unfolding deriv_row_value_def Let_def f nb dets tk dr i_r lt1
    using r_in lt2 by simp
  have sme: "signed_minor_entry self x occs m p c =
      fdiv ((- 1) ^ p * (if m < numerator then (- 1) ^ c else - ((- 1) ^ c)) *
              (prod_list (map d [0..<numerator]) * minor_det (pm m) nocc occs r c))
           (prod_list (map d [numerator..<numerator + denominator]) * d m)"
    unfolding signed_minor_entry_def Let_def f nb d_def pm_def r_def ..
  have par: "(if odd n then - 1 else 1) = ((- 1) ^ n :: real)"
    "(if odd n then 1 else - 1) = (- ((- 1) ^ n) :: real)" for n
    by simp_all
  have val: "deriv_row_value self X occs idx = signed_minor_entry self x occs m p c"
    unfolding drv wv sme par by simp
  have ei: "entry_index self m (nat (batch ! k ! p)) c = idx"
    by (simp add: entry_index_def f nb idx_def r_def occs_def)
  have "map (\<lambda>occs. map (deriv_row_value self X occs) [0..<self_nparam self - 1]) batch ! k !
          entry_index self m (nat (batch ! k ! p)) c =
        signed_minor_entry self x (batch ! k) m p c"
    unfolding ei entry using val by (simp only: occs_def)
  with cf show ?thesis by blast
qed

lemma overlap_at_numerator_entry: "overlap_at engine_num1_den1 [t, 3, 4, 5] [0] = t / 4"
proof -
  have "compute_overlap engine_num1_den1 [t, 3, 4, 5] (Array [[0]]) =
      Inr (map (overlap_value engine_num1_den1 [t, 3, 4, 5]) [[0]])"
    by (rule compute_overlap_closed_form)
       (simp_all add: engine_num1_den1_def select_occs_def valid_occs_def)
  then show ?thesis
    by (simp add: overlap_at_def overlap_value_def engine_num1_den1_def param_matrix_def
        restrict_rows_def fdiv_def upt_conv_Cons)
qed

lemma overlap_at_denominator_entry:
  "overlap_at engine_num1_den1 [2, 3, t, 5] [0] = (if t = 0 then 0 else 2 / t)"
proof -
  have "compute_overlap engine_num1_den1 [2, 3, t, 5] (Array [[0]]) =
      Inr (map (overlap_value engine_num1_den1 [2, 3, t, 5]) [[0]])"
    by (rule compute_overlap_closed_form)
       (simp_all add: engine_num1_den1_def select_occs_def valid_occs_def)
  then show ?thesis
    by (simp add: overlap_at_def overlap_value_def engine_num1_den1_def param_matrix_def
        restrict_rows_def fdiv_def upt_conv_Cons)
qed

lemma has_field_derivative_away_from_zero:
  fixes f g :: "real \<Rightarrow> real"
  assumes "(g has_field_derivative D) (at a)" and "a \<noteq> 0"
    and "\<And>t. t \<noteq> 0 \<Longrightarrow> f t = g t"
  shows "(f has_field_derivative D) (at a)"
proof -
  have "eventually (\<lambda>t. f t = g t) (nhds a)"
    using t1_space_nhds [OF assms(2)] by (rule eventually_mono) (simp add: assms(3))
  then show ?thesis
    using DERIV_cong_ev [OF refl, of f g a D D] assms(1) by simp
qed

text \<open>
  Claim C4 fails on the code. On an engine with one numerator and three denominator
  matrices over two occupied indices and the configuration \<open>[0, 2]\<close>, the entries of the
  numerator matrix and of the first denominator matrix are the signed minors with the
  parities of the specification (columns 4 and 10 below, for the occupied row 2 at
  position 1), and the entries of the other two denominator matrices are left at zero,
  where the specification's signed minors are not zero (columns 13 and 22): the second
  parameter loop runs over \<^verbatim>\<open>numerator * mat_size\<close> indices, not over the denominator
  matrices.
\<close>

theorem denominator_column_sign_not_applied:
  "DetRatio_init (Hamiltonian 3) 2 1 3 (Some 2) NoWfn [[0, 1], [0, 2], [1, 2]] = Inr engine_num1_den3_pair \<and>
   compute_overlap_deriv engine_num1_den3_pair
       [1, 2, 3, 4, 5, 6, 1, 3, 0, 1, 1, 1, 2, 5, 7, 1, 1, 2, 1, 1, 0, 1, 2, 1]
       (Array [[0, 2]]) =
     Inr [[Some (- 3), Some (5 / 2), Some 0, Some 0, Some 1, Some (- (1 / 2)),
           Some 1, Some (- 1), Some 0, Some 0, Some (- 3), Some 1,
           Some 0, Some 0, Some 0, Some 0, Some 0, Some 0,
           Some 0, Some 0, Some 0, Some 0, Some 0, Some 0]] \<and>
   entry_index engine_num1_den3_pair 0 2 0 = 4 \<and>
   signed_minor_entry engine_num1_den3_pair
       [1, 2, 3, 4, 5, 6, 1, 3, 0, 1, 1, 1, 2, 5, 7, 1, 1, 2, 1, 1, 0, 1, 2, 1]
       [0, 2] 0 1 0 = Some 1 \<and>
   entry_index engine_num1_den3_pair 1 2 0 = 10 \<and>
   signed_minor_entry engine_num1_den3_pair
       [1, 2, 3, 4, 5, 6, 1, 3, 0, 1, 1, 1, 2, 5, 7, 1, 1, 2, 1, 1, 0, 1, 2, 1]
       [0, 2] 1 1 0 = Some (- 3) \<and>
   entry_index engine_num1_den3_pair 2 0 1 = 13 \<and>
   signed_minor_entry engine_num1_den3_pair
       [1, 2, 3, 4, 5, 6, 1, 3, 0, 1, 1, 1, 2, 5, 7, 1, 1, 2, 1, 1, 0, 1, 2, 1]
       [0, 2] 2 0 1 = Some (- 2) \<and>
   entry_index engine_num1_den3_pair 3 2 0 = 22 \<and>
   signed_minor_entry engine_num1_den3_pair
       [1, 2, 3, 4, 5, 6, 1, 3, 0, 1, 1, 1, 2, 5, 7, 1, 1, 2, 1, 1, 0, 1, 2, 1]
       [0, 2] 3 1 0 = Some (- 2)"
proof -
  have "compute_overlap_deriv engine_num1_den3_pair
       [1, 2, 3, 4, 5, 6, 1, 3, 0, 1, 1, 1, 2, 5, 7, 1, 1, 2, 1, 1, 0, 1, 2, 1]
       (Array [[0, 2]]) =
     Inr [[Some (- 3), Some (5 / 2), Some 0, Some 0, Some 1, Some (- (1 / 2)),
           Some 1, Some (- 1), Some 0, Some 0, Some (- 3), Some 1,
           Some 0, Some 0, Some 0, Some 0, Some 0, Some 0,
           Some 0, Some 0, Some 0, Some 0, Some 0, Some 0]]"
    by code_simp
  moreover have "entry_index engine_num1_den3_pair 0 2 0 = 4"
    "entry_index engine_num1_den3_pair 1 2 0 = 10"
    "entry_index engine_num1_den3_pair 2 0 1 = 13"
    "entry_index engine_num1_den3_pair 3 2 0 = 22"
    by (simp_all add: entry_index_def engine_num1_den3_pair_def)
  moreover have "signed_minor_entry engine_num1_den3_pair
       [1, 2, 3, 4, 5, 6, 1, 3, 0, 1, 1, 1, 2, 5, 7, 1, 1, 2, 1, 1, 0, 1, 2, 1]
       [0, 2] 0 1 0 = Some 1"
    by code_simp
  moreover have "signed_minor_entry engine_num1_den3_pair
       [1, 2, 3, 4, 5, 6, 1, 3, 0, 1, 1, 1, 2, 5, 7, 1, 1, 2, 1, 1, 0, 1, 2, 1]
       [0, 2] 1 1 0 = Some (- 3)"
    by code_simp
  moreover have "signed_minor_entry engine_num1_den3_pair
       [1, 2, 3, 4, 5, 6, 1, 3, 0, 1, 1, 1, 2, 5, 7, 1, 1, 2, 1, 1, 0, 1, 2, 1]
       [0, 2] 2 0 1 = Some (- 2)"
    by code_simp
  moreover have "signed_minor_entry engine_num1_den3_pair
       [1, 2, 3, 4, 5, 6, 1, 3, 0, 1, 1, 1, 2, 5, 7, 1, 1, 2, 1, 1, 0, 1, 2, 1]
       [0, 2] 3 1 0 = Some (- 2)"
    by code_simp
  ultimately show ?thesis
    using init_engine_num1_den3_pair by simp
qed

text \<open>
  Claim C3 fails on the code. On an engine with three numerator matrices and one
  denominator matrix, \<^verbatim>\<open>compute_overlap\<close> returns one value for each configuration and
  \<^verbatim>\<open>compute_overlap_deriv\<close> raises \<^verbatim>\<open>IndexError\<close> for a parameter vector of length
  \<^verbatim>\<open>nparam - 1 = 8\<close>: the second parameter loop runs up to index
  \<^verbatim>\<open>2 * numerator * mat_size - 1 = 11\<close> and stores at index 8 of a row of length 8.
\<close>

theorem overlap_deriv_raises_index_error:
  "DetRatio_init (Hamiltonian 2) 1 3 1 (Some 2) NoWfn [[0], [1]] = Inr engine_num3_den1 \<and>
   length [1, 2, 3, 4, 5, 6, 7, 8 :: real] = self_nparam engine_num3_den1 - 1 \<and>
   compute_overlap engine_num3_den1 [1, 2, 3, 4, 5, 6, 7, 8] (Array [[0], [1]]) =
     Inr [Some (15 / 7), Some 6] \<and>
   compute_overlap_deriv engine_num3_den1 [1, 2, 3, 4, 5, 6, 7, 8] (Array [[0], [1]]) =
     Inl IndexError"
proof -
  have "compute_overlap engine_num3_den1 [1, 2, 3, 4, 5, 6, 7, 8] (Array [[0], [1]]) =
     Inr [Some (15 / 7), Some 6]"
    by code_simp
  moreover have "compute_overlap_deriv engine_num3_den1 [1, 2, 3, 4, 5, 6, 7, 8] (Array [[0], [1]]) =
     Inl IndexError"
    by code_simp
  ultimately show ?thesis
    using init_engine_num3_den1 by (simp add: engine_num3_den1_def)
qed

text \<open>
  Claim C5 fails on the code. With a single occupied index the guard of lines 216 and 236
  stores \<open>1.0\<close> at the occupied row of the matrices the two loops reach, which are the
  first \<open>2 * numerator\<close>. On an engine with one numerator and three denominator matrices
  the entries at the occupied row of matrices 2 and 3 (columns 4 and 6) stay at zero.
\<close>

theorem single_column_entry_not_written:
  "DetRatio_init (Hamiltonian 2) 1 1 3 (Some 2) NoWfn [[0], [1]] = Inr engine_num1_den3 \<and>
   compute_overlap_deriv engine_num1_den3 [1, 2, 3, 4, 5, 6, 7, 8] (Array [[0]]) =
     Inr [[Some 1, Some 0, Some 1, Some 0, Some 0, Some 0, Some 0, Some 0]] \<and>
   entry_index engine_num1_den3 2 0 0 = 4 \<and>
   entry_index engine_num1_den3 3 0 0 = 6"
proof -
  have "compute_overlap_deriv engine_num1_den3 [1, 2, 3, 4, 5, 6, 7, 8] (Array [[0]]) =
     Inr [[Some 1, Some 0, Some 1, Some 0, Some 0, Some 0, Some 0, Some 0]]"
    by code_simp
  then show ?thesis
    using init_engine_num1_den3 by (simp add: entry_index_def engine_num1_den3_def)
qed

text \<open>
  Claim C6 fails on the code. With one numerator matrix, one denominator matrix and a
  single occupied index, the overlap of the configuration \<open>[0]\<close> is the numerator entry
  over the denominator entry, here \<open>2 / 4\<close>; its derivatives are \<open>1 / 4\<close> with respect to
  the numerator entry and \<open>- (1 / 8)\<close> with respect to the denominator entry, as the
  specification says. \<^verbatim>\<open>compute_overlap_deriv\<close> stores \<open>1.0\<close> at both: the guard of lines
  216 and 236 writes the empty minor without the sign and the factor
  \<^verbatim>\<open>n_det_prod / (d_det_prod * dets[m])\<close> of the branch beside it.
\<close>

theorem single_column_entry_is_one:
  "DetRatio_init (Hamiltonian 2) 1 1 1 (Some 2) NoWfn [[0], [1]] = Inr engine_num1_den1 \<and>
   compute_overlap engine_num1_den1 [2, 3, 4, 5] (Array [[0]]) = Inr [Some (1 / 2)] \<and>
   compute_overlap_deriv engine_num1_den1 [2, 3, 4, 5] (Array [[0]]) =
     Inr [[Some 1, Some 0, Some 1, Some 0]] \<and>
   ((\<lambda>t. overlap_at engine_num1_den1 [t, 3, 4, 5] [0]) has_field_derivative 1 / 4) (at 2) \<and>
   ((\<lambda>t. overlap_at engine_num1_den1 [2, 3, t, 5] [0]) has_field_derivative - (1 / 8)) (at 4)"
proof -
  have "compute_overlap engine_num1_den1 [2, 3, 4, 5] (Array [[0]]) = Inr [Some (1 / 2)]"
    by code_simp
  moreover have "compute_overlap_deriv engine_num1_den1 [2, 3, 4, 5] (Array [[0]]) =
     Inr [[Some 1, Some 0, Some 1, Some 0]]"
    by code_simp
  moreover have "((\<lambda>t. overlap_at engine_num1_den1 [t, 3, 4, 5] [0]) has_field_derivative 1 / 4) (at 2)"
    unfolding overlap_at_numerator_entry by (auto intro!: derivative_eq_intros)
  moreover have "((\<lambda>t. overlap_at engine_num1_den1 [2, 3, t, 5] [0]) has_field_derivative - (1 / 8)) (at 4)"
  proof (rule has_field_derivative_away_from_zero)
    show "((\<lambda>t::real. 2 / t) has_field_derivative - (1 / 8)) (at 4)"
      by (auto intro!: derivative_eq_intros)
  qed (simp_all add: overlap_at_denominator_entry)
  ultimately show ?thesis
    using init_engine_num1_den1 by simp
qed

lemma overlap_at_pair:
  "overlap_at engine_num1_den3_pair [1, 2, 3, 4, 5, 6, 1, 0, 0, 1, 1, 1, t, 0, 0, 1, 1, 2, 1, 1, 0, 1, 2, 1] [0, 1] =
     (if t = 0 then 0 else - 2 / t)"
proof -
  have "compute_overlap engine_num1_den3_pair [1, 2, 3, 4, 5, 6, 1, 0, 0, 1, 1, 1, t, 0, 0, 1, 1, 2, 1, 1, 0, 1, 2, 1] (Array [[0, 1]]) =
      Inr (map (overlap_value engine_num1_den3_pair [1, 2, 3, 4, 5, 6, 1, 0, 0, 1, 1, 1, t, 0, 0, 1, 1, 2, 1, 1, 0, 1, 2, 1]) [[0, 1]])"
    by (rule compute_overlap_closed_form)
       (simp_all add: engine_num1_den3_pair_def select_occs_def valid_occs_def)
  then show ?thesis
    by (simp add: overlap_at_def overlap_value_def engine_num1_den3_pair_def param_matrix_def
        restrict_rows_def fdiv_def upt_conv_Cons)
qed

text \<open>
  Claim C1 fails on the code. On an engine with one numerator and three denominator
  matrices over two occupied indices, the overlap of the configuration \<open>[0, 1]\<close> as a
  function of parameter 12, the first entry of the second denominator matrix, is
  \<open>- 2 / t\<close>, with derivative \<open>1 / 2\<close> at \<open>t = 2\<close>; \<^verbatim>\<open>compute_overlap_deriv\<close> leaves column
  12, and every column of the last two denominator matrices, at zero.
\<close>

theorem overlap_deriv_misses_denominator_matrix:
  "DetRatio_init (Hamiltonian 3) 2 1 3 (Some 2) NoWfn [[0, 1], [0, 2], [1, 2]] = Inr engine_num1_den3_pair \<and>
   ((\<lambda>t. overlap_at engine_num1_den3_pair [1, 2, 3, 4, 5, 6, 1, 0, 0, 1, 1, 1, t, 0, 0, 1, 1, 2, 1, 1, 0, 1, 2, 1] [0, 1])
      has_field_derivative 1 / 2) (at 2) \<and>
   compute_overlap_deriv engine_num1_den3_pair [1, 2, 3, 4, 5, 6, 1, 0, 0, 1, 1, 1, 2, 0, 0, 1, 1, 2, 1, 1, 0, 1, 2, 1]
       (Array [[0, 1]]) =
     Inr [[Some 2, Some (- (3 / 2)), Some (- 1), Some (1 / 2), Some 0, Some 0,
           Some 1, Some 0, Some 0, Some 1, Some 0, Some 0,
           Some 0, Some 0, Some 0, Some 0, Some 0, Some 0,
           Some 0, Some 0, Some 0, Some 0, Some 0, Some 0]]"
proof -
  have "((\<lambda>t. overlap_at engine_num1_den3_pair [1, 2, 3, 4, 5, 6, 1, 0, 0, 1, 1, 1, t, 0, 0, 1, 1, 2, 1, 1, 0, 1, 2, 1] [0, 1])
      has_field_derivative 1 / 2) (at 2)"
  proof (rule has_field_derivative_away_from_zero)
    show "((\<lambda>t::real. - 2 / t) has_field_derivative 1 / 2) (at 2)"
      by (auto intro!: derivative_eq_intros)
  qed (simp_all add: overlap_at_pair)
  moreover have "compute_overlap_deriv engine_num1_den3_pair [1, 2, 3, 4, 5, 6, 1, 0, 0, 1, 1, 1, 2, 0, 0, 1, 1, 2, 1, 1, 0, 1, 2, 1]
       (Array [[0, 1]]) =
     Inr [[Some 2, Some (- (3 / 2)), Some (- 1), Some (1 / 2), Some 0, Some 0,
           Some 1, Some 0, Some 0, Some 1, Some 0, Some 0,
           Some 0, Some 0, Some 0, Some 0, Some 0, Some 0,
           Some 0, Some 0, Some 0, Some 0, Some 0, Some 0]]"
    by code_simp
  ultimately show ?thesis
    using init_engine_num1_den3_pair by simp
qed

end
